theory Spec2Isabelle
  imports Complex_Main "HOL-Library.Log_Nat"
begin

section \<open>Values and errors\<close>

text \<open>
  The program is the tutorial notebook \<^verbatim>\<open>examples/tutorial/03_Alignment_and_Preprocessing.ipynb\<close>.
  Its code cells are client code of numpy, xarray, intake, cartopy and geoviews. The cells are
  embedded statement by statement; the operations of those libraries that the cells call are
  modelled here as far as their documented behaviour matters to the notebook, and the calls
  whose results the notebook only passes on are parameters (the record \<open>library\<close> below).

  The cells' own numbers (the centre point, the buffer, the bounds of the region, the
  resolution) and the coordinates that \<^verbatim>\<open>np.arange\<close> computes are IEEE binary64 numbers:
  a number is a real, and each arithmetic operation of the cells and of \<^verbatim>\<open>np.arange\<close>
  gives the exact result rounded to binary64 (\<open>binary64\<close> below).

  The array elements are taken to be floating-point numbers too (their type is that of
  the data files the catalog names, which the notebook does not fix). Arithmetic on them
  is kept exact on finite values; the special values that an unguarded division produces
  are kept apart.
\<close>

subsection \<open>Rounding to binary64\<close>

text \<open>
  Rounding to the nearest number with a significand of 53 bits, ties to the even
  significand. \<open>expo x\<close> is the exponent of \<open>x\<close>: the \<open>e\<close> with \<open>2^e \<le> |x| < 2^(e+1)\<close>.
  The exponent range is not bounded (no overflow to infinity, no subnormal numbers): the
  numbers of the notebook are coordinates in metres, far from both ends.
\<close>

definition round_even :: "real \<Rightarrow> int" where
  "round_even z =
     (let n = \<lfloor>z\<rfloor>
      in if z - of_int n < 1 / 2 then n
         else if 1 / 2 < z - of_int n then n + 1
         else if even n then n else n + 1)"

definition expo :: "real \<Rightarrow> int" where
  "expo x =
     (if 1 \<le> \<bar>x\<bar> then int (floorlog 2 (nat \<lfloor>\<bar>x\<bar>\<rfloor>)) - 1
      else - int (floorlog 2 (nat (\<lceil>1 / \<bar>x\<bar>\<rceil> - 1))))"

definition binary64 :: "real \<Rightarrow> real" where
  "binary64 x =
     (if x = 0 then 0
      else of_int (round_even (x / 2 powi (expo x - 52))) * 2 powi (expo x - 52))"

subsection \<open>Array elements and errors\<close>

datatype fval = Fin real | PInf | NInf | NaN

datatype error =
    ImportError | FileNotFoundError | AttributeError | KeyError | IndexError
  | NameError | TypeError | ValueError | NotImplementedError | LibraryError string

definition bind_err :: "error + 'a \<Rightarrow> ('a \<Rightarrow> error + 'b) \<Rightarrow> error + 'b" where
  "bind_err m f = (case m of Inl e \<Rightarrow> Inl e | Inr v \<Rightarrow> f v)"

fun fneg :: "fval \<Rightarrow> fval" where
  "fneg (Fin a) = Fin (- a)"
| "fneg PInf = NInf"
| "fneg NInf = PInf"
| "fneg NaN = NaN"

fun fadd :: "fval \<Rightarrow> fval \<Rightarrow> fval" where
  "fadd (Fin a) (Fin b) = Fin (a + b)"
| "fadd NaN _ = NaN"
| "fadd _ NaN = NaN"
| "fadd PInf NInf = NaN"
| "fadd NInf PInf = NaN"
| "fadd PInf _ = PInf"
| "fadd NInf _ = NInf"
| "fadd _ PInf = PInf"
| "fadd _ NInf = NInf"

definition fsub :: "fval \<Rightarrow> fval \<Rightarrow> fval" where
  "fsub a b = fadd a (fneg b)"

text \<open>
  numpy's true division of floating-point arrays never raises: a zero divisor gives
  \<open>nan\<close> for \<open>0/0\<close> and an infinity otherwise (with a warning only).
\<close>

fun fdiv :: "fval \<Rightarrow> fval \<Rightarrow> fval" where
  "fdiv (Fin a) (Fin b) =
     (if b = 0 then (if a = 0 then NaN else if 0 < a then PInf else NInf)
      else Fin (a / b))"
| "fdiv NaN _ = NaN"
| "fdiv _ NaN = NaN"
| "fdiv (Fin a) _ = Fin 0"
| "fdiv PInf (Fin b) = (if 0 \<le> b then PInf else NInf)"
| "fdiv NInf (Fin b) = (if 0 \<le> b then NInf else PInf)"
| "fdiv _ _ = NaN"

fun is_finite :: "fval \<Rightarrow> bool" where
  "is_finite (Fin a) = True"
| "is_finite _ = False"

section \<open>Labelled arrays\<close>

text \<open>
  An \<^verbatim>\<open>xarray.DataArray\<close> with dimensions \<open>(y, x)\<close>: the two coordinate axes, the values
  (one row for each \<open>y\<close>), and whether the values are still a lazily evaluated chunked
  (dask) array. The rasters read from the catalog have a leading \<open>band\<close> dimension and
  carry the \<open>crs\<close> attribute.
\<close>

record dataarray =
  da_y :: "real list"
  da_x :: "real list"
  da_values :: "fval list list"
  da_chunked :: bool

record raster =
  rs_band :: "int list"
  rs_y :: "real list"
  rs_x :: "real list"
  rs_values :: "fval list list list"
  rs_chunked :: bool
  rs_crs :: "string option"

text \<open>
  The shape of an array's values follows its coordinate axes; xarray keeps that for every
  array it makes.
\<close>

definition wf_raster :: "raster \<Rightarrow> bool" where
  "wf_raster r \<longleftrightarrow>
     length (rs_values r) = length (rs_band r) \<and>
     (\<forall>p \<in> set (rs_values r). length p = length (rs_y r) \<and>
        (\<forall>row \<in> set p. length row = length (rs_x r)))"

fun index_of :: "'a \<Rightarrow> 'a list \<Rightarrow> nat option" where
  "index_of v [] = None"
| "index_of v (w # ws) = (if v = w then Some 0 else map_option Suc (index_of v ws))"

text \<open>\<^verbatim>\<open>da.sel(band=k)\<close>: the plane with label \<open>k\<close>; a label that is absent raises KeyError.\<close>

definition sel_band :: "raster \<Rightarrow> int \<Rightarrow> error + dataarray" where
  "sel_band r k =
     (case index_of k (rs_band r) of
        None \<Rightarrow> Inl KeyError
      | Some i \<Rightarrow> Inr \<lparr>da_y = rs_y r, da_x = rs_x r, da_values = rs_values r ! i,
                       da_chunked = rs_chunked r\<rparr>)"

text \<open>
  Arithmetic between two arrays aligns them first: xarray keeps, on each axis, the
  coordinate labels that both operands have (an inner join). Operands whose labels on an
  axis are equal are used as they are; otherwise each is reindexed to the joined labels.
  The operation is then applied element by element, and gives a new array: neither
  operand is written to. The result is lazy when an operand is.
\<close>

definition align_inner :: "real list \<Rightarrow> real list \<Rightarrow> real list" where
  "align_inner a b = (if a = b then a else filter (\<lambda>v. v \<in> set b) a)"

definition value_at :: "dataarray \<Rightarrow> real \<Rightarrow> real \<Rightarrow> fval" where
  "value_at a yv xv =
     (case index_of yv (da_y a) of
        None \<Rightarrow> NaN
      | Some i \<Rightarrow> (case index_of xv (da_x a) of
                     None \<Rightarrow> NaN
                   | Some j \<Rightarrow> da_values a ! i ! j))"

definition reindex :: "dataarray \<Rightarrow> real list \<Rightarrow> real list \<Rightarrow> dataarray" where
  "reindex a ys xs =
     (if ys = da_y a \<and> xs = da_x a then a
      else \<lparr>da_y = ys, da_x = xs,
            da_values = map (\<lambda>yv. map (\<lambda>xv. value_at a yv xv) xs) ys,
            da_chunked = da_chunked a\<rparr>)"

definition binop :: "(fval \<Rightarrow> fval \<Rightarrow> fval) \<Rightarrow> dataarray \<Rightarrow> dataarray \<Rightarrow> dataarray" where
  "binop f a b =
     (let ys = align_inner (da_y a) (da_y b); xs = align_inner (da_x a) (da_x b);
          a' = reindex a ys xs; b' = reindex b ys xs
      in \<lparr>da_y = ys, da_x = xs,
          da_values = map2 (map2 f) (da_values a') (da_values b'),
          da_chunked = da_chunked a \<or> da_chunked b\<rparr>)"

text \<open>
  The two vegetation indices, as the cells write them:
  \<^verbatim>\<open>NDVI_1988 = (landsat_5_da.sel(band=4) - landsat_5_da.sel(band=3)) / (landsat_5_da.sel(band=4) + landsat_5_da.sel(band=3))\<close>
  \<^verbatim>\<open>NDVI_2017 = (landsat_8_da.sel(band=5) - landsat_8_da.sel(band=4)) / (landsat_8_da.sel(band=5) + landsat_8_da.sel(band=4))\<close>
  The four selections are evaluated from left to right.
\<close>

definition NDVI_1988 :: "raster \<Rightarrow> error + dataarray" where
  "NDVI_1988 landsat_5_da =
     bind_err (sel_band landsat_5_da 4) (\<lambda>a.
     bind_err (sel_band landsat_5_da 3) (\<lambda>b.
     bind_err (sel_band landsat_5_da 4) (\<lambda>c.
     bind_err (sel_band landsat_5_da 3) (\<lambda>d.
       Inr (binop fdiv (binop fsub a b) (binop fadd c d))))))"

definition NDVI_2017 :: "raster \<Rightarrow> error + dataarray" where
  "NDVI_2017 landsat_8_da =
     bind_err (sel_band landsat_8_da 5) (\<lambda>a.
     bind_err (sel_band landsat_8_da 4) (\<lambda>b.
     bind_err (sel_band landsat_8_da 5) (\<lambda>c.
     bind_err (sel_band landsat_8_da 4) (\<lambda>d.
       Inr (binop fdiv (binop fsub a b) (binop fadd c d))))))"

section \<open>Region of interest and grids\<close>

text \<open>
  \<^verbatim>\<open>bounding_box = [[[xmin, ymin], [xmin, ymax], [xmax, ymax], [xmax, ymin]]]\<close>
\<close>

definition bounding_box :: "real \<Rightarrow> real \<Rightarrow> real \<Rightarrow> real \<Rightarrow> real list list list" where
  "bounding_box xmin xmax ymin ymax =
     [[[xmin, ymin], [xmin, ymax], [xmax, ymax], [xmax, ymin]]]"

text \<open>
  \<^verbatim>\<open>np.arange(start, stop, step)\<close> on floating-point arguments, as numpy computes it:
  the length is \<open>ceil((stop - start) / step)\<close>, the first element is \<open>start\<close>, the second
  is \<open>start + step\<close>, and with \<open>delta\<close> the second minus the first, element \<open>i\<close> is
  \<open>start + i * delta\<close>; every operation is a binary64 operation. A step of zero is
  refused.
\<close>

definition arange_values :: "real \<Rightarrow> real \<Rightarrow> real \<Rightarrow> real list" where
  "arange_values start stop step =
     (let n = nat \<lceil>binary64 (binary64 (stop - start) / step)\<rceil>;
          next = binary64 (start + step);
          delta = binary64 (next - start)
      in map (\<lambda>i. if i = 0 then start else if i = 1 then next
                    else binary64 (start + binary64 (real i * delta))) [0..<n])"

definition arange :: "real \<Rightarrow> real \<Rightarrow> real \<Rightarrow> error + real list" where
  "arange start stop step =
     (if step = 0 then Inl ValueError else Inr (arange_values start stop step))"

text \<open>
  \<^verbatim>\<open>a.load()\<close> evaluates a lazy array and keeps the values in the array object itself.
\<close>

definition load :: "dataarray \<Rightarrow> dataarray" where
  "load a = a\<lparr>da_chunked := False\<rparr>"

section \<open>Datasets\<close>

text \<open>
  \<^verbatim>\<open>xr.Dataset({name: array, ...})\<close> groups named arrays under shared coordinates: on
  each axis the labels of all the arrays are joined (an outer join; equal labels are kept
  as they are), and an array that lacks a label is filled with \<open>nan\<close> there.
  \<^verbatim>\<open>ds[name]\<close> gives the array of that name back, KeyError when there is none.
\<close>

record dataset =
  ds_y :: "real list"
  ds_x :: "real list"
  ds_vars :: "(string \<times> dataarray) list"

definition align_outer :: "real list \<Rightarrow> real list \<Rightarrow> real list" where
  "align_outer a b = (if a = b then a else sort (remdups (a @ b)))"

fun join_outer :: "real list list \<Rightarrow> real list" where
  "join_outer [] = []"
| "join_outer [c] = c"
| "join_outer (c # cs) = align_outer c (join_outer cs)"

definition Dataset :: "(string \<times> dataarray) list \<Rightarrow> dataset" where
  "Dataset vars =
     (let ys = join_outer (map (\<lambda>(n, a). da_y a) vars);
          xs = join_outer (map (\<lambda>(n, a). da_x a) vars)
      in \<lparr>ds_y = ys, ds_x = xs, ds_vars = map (\<lambda>(n, a). (n, reindex a ys xs)) vars\<rparr>)"

definition getitem :: "dataset \<Rightarrow> string \<Rightarrow> error + dataarray" where
  "getitem ds n = (case map_of (ds_vars ds) n of None \<Rightarrow> Inl KeyError | Some a \<Rightarrow> Inr a)"

definition getattr :: "dataset \<Rightarrow> string \<Rightarrow> error + dataarray" where
  "getattr ds n = (case map_of (ds_vars ds) n of None \<Rightarrow> Inl AttributeError | Some a \<Rightarrow> Inr a)"

section \<open>The libraries the notebook calls\<close>

text \<open>
  A catalog names data sources; reading a source gives its raster or fails (a missing
  file). \<^verbatim>\<open>read_chunked()\<close> gives the raster as a lazily evaluated chunked array.
  The other calls below are parameters: each may fail with any error.
  \<^item> \<open>hv_extension\<close>: \<^verbatim>\<open>hv.extension('bokeh', width=80)\<close>
  \<^item> \<open>open_catalog\<close>: \<^verbatim>\<open>intake.open_catalog(path)\<close>
  \<^item> \<open>proj_to_cartopy\<close>: \<^verbatim>\<open>gv.util.proj_to_cartopy(proj4_string)\<close>
  \<^item> \<open>transform_point\<close>: \<^verbatim>\<open>crs.transform_point(lon, lat, ccrs.PlateCarree())\<close>
  \<^item> \<open>hvplot_image\<close>: \<^verbatim>\<open>a.hvplot.image(x='x', y='y', ...)\<close>
  \<^item> \<open>polygons\<close>: \<^verbatim>\<open>gv.tile_sources.EsriImagery * gv.Polygons(box, crs=crs).options(alpha=0.4)\<close>
  \<^item> \<open>interpolator\<close>: the interpolation of an array for new \<open>x\<close> and \<open>y\<close> coordinates
    (linear by default), as the function that gives the value at a point \<open>(x, y)\<close> of them
  \<^item> \<open>groupby_bins_mean\<close>: \<^verbatim>\<open>a.groupby_bins(dim, bins, labels=labels).mean(dim=dim)\<close>
\<close>

datatype crs = CartopyCrs string

type_synonym catalog = "string \<rightharpoonup> (error + raster)"

record library =
  hv_extension :: "error + unit"
  open_catalog :: "string \<Rightarrow> error + catalog"
  proj_to_cartopy :: "string \<Rightarrow> error + crs"
  transform_point :: "crs \<Rightarrow> real \<Rightarrow> real \<Rightarrow> error + real \<times> real"
  hvplot_image :: "dataarray \<Rightarrow> error + unit"
  polygons :: "real list list list \<Rightarrow> crs \<Rightarrow> error + unit"
  interpolator :: "dataarray \<Rightarrow> real list \<Rightarrow> real list \<Rightarrow> error + (real \<Rightarrow> real \<Rightarrow> fval)"
  groupby_bins_mean :: "string \<Rightarrow> dataarray \<Rightarrow> real list \<Rightarrow> real list \<Rightarrow> error + dataarray"

definition read_chunked :: "catalog \<Rightarrow> string \<Rightarrow> error + raster" where
  "read_chunked cat n =
     (case cat n of
        None \<Rightarrow> Inl AttributeError
      | Some src \<Rightarrow> bind_err src (\<lambda>r. Inr (r\<lparr>rs_chunked := True\<rparr>)))"

text \<open>
  \<^verbatim>\<open>a.interp(x=x, y=y)\<close> gives a new array on the coordinates asked for, with the
  library's interpolated value at each of the new points. The notebook says of the xarray
  it was written for: "This operation is not yet supported for dask arrays, so we'll first
  load in the data", so a lazy array is refused.
\<close>

definition interp :: "library \<Rightarrow> dataarray \<Rightarrow> real list \<Rightarrow> real list \<Rightarrow> error + dataarray" where
  "interp L a x y =
     (if da_chunked a then Inl NotImplementedError
      else bind_err (interpolator L a x y) (\<lambda>point.
             Inr \<lparr>da_y = y, da_x = x,
                  da_values = map (\<lambda>yv. map (\<lambda>xv. point xv yv) x) y,
                  da_chunked = False\<rparr>))"

section \<open>Variables and statements\<close>

text \<open>
  The notebook's variables are the names of its kernel's namespace. A name that is not
  bound raises NameError; a value of the wrong kind for the operation raises TypeError.
\<close>

datatype pyval =
    VRaster raster | VArray dataarray | VNum real | VCoords "real list"
  | VBox "real list list list" | VCatalog catalog | VCrs crs | VDataset dataset

type_synonym store = "string \<rightharpoonup> pyval"

definition lookup :: "store \<Rightarrow> string \<Rightarrow> error + pyval" where
  "lookup s n = (case s n of None \<Rightarrow> Inl NameError | Some v \<Rightarrow> Inr v)"

definition get_raster :: "store \<Rightarrow> string \<Rightarrow> error + raster" where
  "get_raster s n = bind_err (lookup s n) (\<lambda>v. case v of VRaster r \<Rightarrow> Inr r | _ \<Rightarrow> Inl TypeError)"

definition get_array :: "store \<Rightarrow> string \<Rightarrow> error + dataarray" where
  "get_array s n = bind_err (lookup s n) (\<lambda>v. case v of VArray a \<Rightarrow> Inr a | _ \<Rightarrow> Inl TypeError)"

definition get_num :: "store \<Rightarrow> string \<Rightarrow> error + real" where
  "get_num s n = bind_err (lookup s n) (\<lambda>v. case v of VNum r \<Rightarrow> Inr r | _ \<Rightarrow> Inl TypeError)"

definition get_coords :: "store \<Rightarrow> string \<Rightarrow> error + real list" where
  "get_coords s n = bind_err (lookup s n) (\<lambda>v. case v of VCoords c \<Rightarrow> Inr c | _ \<Rightarrow> Inl TypeError)"

definition get_box :: "store \<Rightarrow> string \<Rightarrow> error + real list list list" where
  "get_box s n = bind_err (lookup s n) (\<lambda>v. case v of VBox b \<Rightarrow> Inr b | _ \<Rightarrow> Inl TypeError)"

definition get_catalog :: "store \<Rightarrow> string \<Rightarrow> error + catalog" where
  "get_catalog s n = bind_err (lookup s n) (\<lambda>v. case v of VCatalog c \<Rightarrow> Inr c | _ \<Rightarrow> Inl TypeError)"

definition get_crs :: "store \<Rightarrow> string \<Rightarrow> error + crs" where
  "get_crs s n = bind_err (lookup s n) (\<lambda>v. case v of VCrs c \<Rightarrow> Inr c | _ \<Rightarrow> Inl TypeError)"

definition get_dataset :: "store \<Rightarrow> string \<Rightarrow> error + dataset" where
  "get_dataset s n = bind_err (lookup s n) (\<lambda>v. case v of VDataset d \<Rightarrow> Inr d | _ \<Rightarrow> Inl TypeError)"

text \<open>
  A statement of a cell is an assignment of an expression's value to a name, an
  assignment of a pair to two names, an expression evaluated for its display (a bare
  name, a \<^verbatim>\<open>print\<close>, a plot), or \<^verbatim>\<open>name.load()\<close>, which changes the array bound to
  the name in place.
\<close>

datatype stmt =
    Assign string "store \<Rightarrow> error + pyval"
  | Assign2 string string "store \<Rightarrow> error + pyval \<times> pyval"
  | Expr "store \<Rightarrow> error + unit"
  | Load string

fun exec :: "stmt \<Rightarrow> store \<Rightarrow> error + store" where
  "exec (Assign n rhs) s = bind_err (rhs s) (\<lambda>v. Inr (s(n \<mapsto> v)))"
| "exec (Assign2 n m rhs) s = bind_err (rhs s) (\<lambda>(v, w). Inr (s(n \<mapsto> v, m \<mapsto> w)))"
| "exec (Expr e) s = bind_err (e s) (\<lambda>u. Inr s)"
| "exec (Load n) s = bind_err (get_array s n) (\<lambda>a. Inr (s(n \<mapsto> VArray (load a))))"

fun run :: "stmt list \<Rightarrow> store \<Rightarrow> error + store" where
  "run [] s = Inr s"
| "run (c # cs) s = bind_err (exec c s) (run cs)"

fun targets :: "stmt \<Rightarrow> string set" where
  "targets (Assign n rhs) = {n}"
| "targets (Assign2 n m rhs) = {n, m}"
| "targets (Expr e) = {}"
| "targets (Load n) = {n}"

text \<open>Expressions that several cells share.\<close>

definition display :: "string \<Rightarrow> stmt" where
  "display n = Expr (\<lambda>s. bind_err (lookup s n) (\<lambda>v. Inr ()))"

definition item :: "real list \<Rightarrow> nat \<Rightarrow> error + real" where
  "item c i = (if i < length c then Inr (c ! i) else Inl IndexError)"

definition num_binop :: "(real \<Rightarrow> real \<Rightarrow> real) \<Rightarrow> string \<Rightarrow> string \<Rightarrow> store \<Rightarrow> error + pyval" where
  "num_binop f a b s =
     bind_err (get_num s a) (\<lambda>u. bind_err (get_num s b) (\<lambda>v.
       Inr (VNum (binary64 (f u v)))))"

definition np_arange :: "string \<Rightarrow> string \<Rightarrow> string \<Rightarrow> store \<Rightarrow> error + pyval" where
  "np_arange a b c s =
     bind_err (get_num s a) (\<lambda>start. bind_err (get_num s b) (\<lambda>stop.
     bind_err (get_num s c) (\<lambda>step. bind_err (arange start stop step) (\<lambda>g. Inr (VCoords g)))))"

definition plot :: "library \<Rightarrow> string \<Rightarrow> stmt" where
  "plot L n = Expr (\<lambda>s. bind_err (get_array s n) (hvplot_image L))"

section \<open>The code cells\<close>

text \<open>
  Each code cell, in the order of the file, as the list of its statements. The
  \<^verbatim>\<open>import\<close> lines of the first cell bind the modules, which are the parameter \<open>L\<close>.
\<close>

text \<open>\<^verbatim>\<open>hv.extension('bokeh', width=80)\<close>\<close>

definition cell01 :: "library \<Rightarrow> stmt list" where
  "cell01 L = [Expr (\<lambda>s. hv_extension L)]"

text \<open>
  \<^verbatim>\<open>cat = intake.open_catalog('../catalog.yml')\<close>
  \<^verbatim>\<open>landsat_5_da = cat.landsat_5_small.read_chunked()\<close>
  \<^verbatim>\<open>landsat_8_da = cat.landsat_8_small.read_chunked()\<close>
\<close>

definition cell02 :: "library \<Rightarrow> stmt list" where
  "cell02 L =
     [Assign ''cat'' (\<lambda>s. bind_err (open_catalog L ''../catalog.yml'') (\<lambda>c. Inr (VCatalog c))),
      Assign ''landsat_5_da'' (\<lambda>s. bind_err (get_catalog s ''cat'') (\<lambda>c.
         bind_err (read_chunked c ''landsat_5_small'') (\<lambda>r. Inr (VRaster r)))),
      Assign ''landsat_8_da'' (\<lambda>s. bind_err (get_catalog s ''cat'') (\<lambda>c.
         bind_err (read_chunked c ''landsat_8_small'') (\<lambda>r. Inr (VRaster r))))]"

text \<open>\<^verbatim>\<open>landsat_8_da\<close>\<close>

definition cell03 :: "stmt list" where
  "cell03 = [display ''landsat_8_da'']"

text \<open>\<^verbatim>\<open>NDVI_1988 = ...\<close> (see \<open>NDVI_1988\<close> above), then \<^verbatim>\<open>NDVI_1988\<close>\<close>

definition cell04 :: "stmt list" where
  "cell04 =
     [Assign ''NDVI_1988'' (\<lambda>s. bind_err (get_raster s ''landsat_5_da'') (\<lambda>r.
         bind_err (NDVI_1988 r) (\<lambda>a. Inr (VArray a)))),
      display ''NDVI_1988'']"

text \<open>\<^verbatim>\<open>NDVI_2017 = ...\<close> (see \<open>NDVI_2017\<close> above), then \<^verbatim>\<open>NDVI_2017\<close>\<close>

definition cell05 :: "stmt list" where
  "cell05 =
     [Assign ''NDVI_2017'' (\<lambda>s. bind_err (get_raster s ''landsat_8_da'') (\<lambda>r.
         bind_err (NDVI_2017 r) (\<lambda>a. Inr (VArray a)))),
      display ''NDVI_2017'']"

text \<open>
  \<^verbatim>\<open>diff = NDVI_2017 - NDVI_1988\<close>
  \<^verbatim>\<open>diff.hvplot.image(x='x', y='y', width=400, cmap='coolwarm', clim=(-1,1))\<close>
\<close>

definition cell06 :: "library \<Rightarrow> stmt list" where
  "cell06 L =
     [Assign ''diff'' (\<lambda>s. bind_err (get_array s ''NDVI_2017'') (\<lambda>a.
         bind_err (get_array s ''NDVI_1988'') (\<lambda>b. Inr (VArray (binop fsub a b))))),
      plot L ''diff'']"

text \<open>\<^verbatim>\<open>diff.shape\<close>\<close>

definition cell07 :: "stmt list" where
  "cell07 = [Expr (\<lambda>s. bind_err (get_array s ''diff'') (\<lambda>a. Inr ()))]"

text \<open>
  \<^verbatim>\<open>print(NDVI_1988.x[0].values)\<close>
  \<^verbatim>\<open>print(NDVI_2017.x[0].values)\<close>
\<close>

definition cell08 :: "stmt list" where
  "cell08 =
     [Expr (\<lambda>s. bind_err (get_array s ''NDVI_1988'') (\<lambda>a.
         bind_err (item (da_x a) 0) (\<lambda>v. Inr ()))),
      Expr (\<lambda>s. bind_err (get_array s ''NDVI_2017'') (\<lambda>a.
         bind_err (item (da_x a) 0) (\<lambda>v. Inr ())))]"

text \<open>
  \<^verbatim>\<open>print((NDVI_1988.x[1] - NDVI_1988.x[0]).values)\<close>
  \<^verbatim>\<open>print((NDVI_2017.x[1] - NDVI_2017.x[0]).values)\<close>
\<close>

definition cell09 :: "stmt list" where
  "cell09 =
     [Expr (\<lambda>s. bind_err (get_array s ''NDVI_1988'') (\<lambda>a.
         bind_err (item (da_x a) 1) (\<lambda>v. bind_err (get_array s ''NDVI_1988'') (\<lambda>b.
         bind_err (item (da_x b) 0) (\<lambda>w. Inr ()))))),
      Expr (\<lambda>s. bind_err (get_array s ''NDVI_2017'') (\<lambda>a.
         bind_err (item (da_x a) 1) (\<lambda>v. bind_err (get_array s ''NDVI_2017'') (\<lambda>b.
         bind_err (item (da_x b) 0) (\<lambda>w. Inr ())))))]"

text \<open>\<^verbatim>\<open>landsat_8_da.crs\<close>\<close>

definition crs_attr :: "store \<Rightarrow> error + string" where
  "crs_attr s =
     bind_err (get_raster s ''landsat_8_da'') (\<lambda>r.
       case rs_crs r of None \<Rightarrow> Inl AttributeError | Some p \<Rightarrow> Inr p)"

definition cell10 :: "stmt list" where
  "cell10 = [Expr (\<lambda>s. bind_err (crs_attr s) (\<lambda>p. Inr ()))]"

text \<open>\<^verbatim>\<open>crs = gv.util.proj_to_cartopy(landsat_8_da.crs)\<close>\<close>

definition cell11 :: "library \<Rightarrow> stmt list" where
  "cell11 L =
     [Assign ''crs'' (\<lambda>s. bind_err (crs_attr s) (\<lambda>p.
         bind_err (proj_to_cartopy L p) (\<lambda>c. Inr (VCrs c))))]"

text \<open>\<^verbatim>\<open>x_center, y_center = crs.transform_point(-118.7081, 38.6942, ccrs.PlateCarree())\<close>\<close>

definition cell12 :: "library \<Rightarrow> stmt list" where
  "cell12 L =
     [Assign2 ''x_center'' ''y_center'' (\<lambda>s. bind_err (get_crs s ''crs'') (\<lambda>c.
         bind_err (transform_point L c (binary64 (- 118.7081)) (binary64 38.6942))
           (\<lambda>(x, y). Inr (VNum x, VNum y))))]"

text \<open>
  \<^verbatim>\<open>buffer = 1.5e4\<close>
  \<^verbatim>\<open>xmin = x_center - buffer\<close>
  \<^verbatim>\<open>xmax = x_center + buffer\<close>
  \<^verbatim>\<open>ymin = y_center - buffer\<close>
  \<^verbatim>\<open>ymax = y_center + buffer\<close>
  \<^verbatim>\<open>bounding_box = [[[xmin, ymin], [xmin, ymax], [xmax, ymax], [xmax, ymin]]]\<close>
\<close>

definition cell13 :: "stmt list" where
  "cell13 =
     [Assign ''buffer'' (\<lambda>s. Inr (VNum 15000)),
      Assign ''xmin'' (num_binop (-) ''x_center'' ''buffer''),
      Assign ''xmax'' (num_binop (+) ''x_center'' ''buffer''),
      Assign ''ymin'' (num_binop (-) ''y_center'' ''buffer''),
      Assign ''ymax'' (num_binop (+) ''y_center'' ''buffer''),
      Assign ''bounding_box'' (\<lambda>s. bind_err (get_num s ''xmin'') (\<lambda>xmin.
         bind_err (get_num s ''ymin'') (\<lambda>ymin. bind_err (get_num s ''ymax'') (\<lambda>ymax.
         bind_err (get_num s ''xmax'') (\<lambda>xmax.
           Inr (VBox (bounding_box xmin xmax ymin ymax)))))))]"

text \<open>\<^verbatim>\<open>gv.tile_sources.EsriImagery * gv.Polygons(bounding_box, crs=crs).options(alpha=0.4)\<close>\<close>

definition cell14 :: "library \<Rightarrow> stmt list" where
  "cell14 L =
     [Expr (\<lambda>s. bind_err (get_box s ''bounding_box'') (\<lambda>b.
         bind_err (get_crs s ''crs'') (\<lambda>c. polygons L b c)))]"

text \<open>
  \<^verbatim>\<open>res = 200\<close>
  \<^verbatim>\<open>x = np.arange(xmin, xmax, res)\<close>
  \<^verbatim>\<open>y = np.arange(ymin, ymax, res)\<close>
\<close>

definition cell15 :: "stmt list" where
  "cell15 =
     [Assign ''res'' (\<lambda>s. Inr (VNum 200)),
      Assign ''x'' (np_arange ''xmin'' ''xmax'' ''res''),
      Assign ''y'' (np_arange ''ymin'' ''ymax'' ''res'')]"

text \<open>
  \<^verbatim>\<open>NDVI_1988.load()\<close>
  \<^verbatim>\<open>NDVI_2017.load()\<close>
\<close>

definition cell16 :: "stmt list" where
  "cell16 = [Load ''NDVI_1988'', Load ''NDVI_2017'']"

text \<open>
  \<^verbatim>\<open>NDVI_2017_regridded = NDVI_2017.interp(x=x, y=y)\<close>
  \<^verbatim>\<open>NDVI_1988_regridded = NDVI_1988.interp(x=x, y=y)\<close>
\<close>

definition regrid :: "library \<Rightarrow> string \<Rightarrow> store \<Rightarrow> error + pyval" where
  "regrid L n s =
     bind_err (get_array s n) (\<lambda>a. bind_err (get_coords s ''x'') (\<lambda>x.
     bind_err (get_coords s ''y'') (\<lambda>y.
     bind_err (interp L a x y) (\<lambda>r. Inr (VArray r)))))"

definition cell17 :: "library \<Rightarrow> stmt list" where
  "cell17 L =
     [Assign ''NDVI_2017_regridded'' (regrid L ''NDVI_2017''),
      Assign ''NDVI_1988_regridded'' (regrid L ''NDVI_1988'')]"

text \<open>
  \<^verbatim>\<open>ds_regridded = xr.Dataset({'NDVI_1988': NDVI_1988_regridded, 'NDVI_2017': NDVI_2017_regridded})\<close>
  \<^verbatim>\<open>ds_regridded\<close>
\<close>

definition cell18 :: "stmt list" where
  "cell18 =
     [Assign ''ds_regridded'' (\<lambda>s. bind_err (get_array s ''NDVI_1988_regridded'') (\<lambda>a.
         bind_err (get_array s ''NDVI_2017_regridded'') (\<lambda>b.
           Inr (VDataset (Dataset [(''NDVI_1988'', a), (''NDVI_2017'', b)]))))),
      display ''ds_regridded'']"

text \<open>
  \<^verbatim>\<open>ds_regridded.NDVI_1988.hvplot.image(x='x', y='y', crs=crs, width=350, clim=(-3, 1)).relabel('1988') +\<close>
  \<^verbatim>\<open>ds_regridded.NDVI_2017.hvplot.image(x='x', y='y', crs=crs, width=350, clim=(-3, 1)).relabel('2017')\<close>
\<close>

definition cell19 :: "library \<Rightarrow> stmt list" where
  "cell19 L =
     [Expr (\<lambda>s. bind_err (get_dataset s ''ds_regridded'') (\<lambda>d.
         bind_err (getattr d ''NDVI_1988'') (\<lambda>a. bind_err (get_crs s ''crs'') (\<lambda>c.
         bind_err (hvplot_image L a) (\<lambda>p. bind_err (get_dataset s ''ds_regridded'') (\<lambda>d'.
         bind_err (getattr d' ''NDVI_2017'') (\<lambda>b. bind_err (get_crs s ''crs'') (\<lambda>c'.
           hvplot_image L b))))))))]"

text \<open>
  \<^verbatim>\<open>diff_regridded = ds_regridded['NDVI_2017'] - ds_regridded['NDVI_1988']\<close>
  \<^verbatim>\<open>diff_regridded\<close>
\<close>

definition diff_regridded :: "dataset \<Rightarrow> error + dataarray" where
  "diff_regridded ds =
     bind_err (getitem ds ''NDVI_2017'') (\<lambda>a.
     bind_err (getitem ds ''NDVI_1988'') (\<lambda>b. Inr (binop fsub a b)))"

definition cell20 :: "stmt list" where
  "cell20 =
     [Assign ''diff_regridded'' (\<lambda>s. bind_err (get_dataset s ''ds_regridded'') (\<lambda>d.
         bind_err (diff_regridded d) (\<lambda>a. Inr (VArray a)))),
      display ''diff_regridded'']"

text \<open>\<^verbatim>\<open>diff_regridded.hvplot.image(x='x', y='y', crs=crs, width=400, cmap='coolwarm', clim=(-1,1))\<close>\<close>

definition cell21 :: "library \<Rightarrow> stmt list" where
  "cell21 L =
     [Expr (\<lambda>s. bind_err (get_array s ''diff_regridded'') (\<lambda>a.
         bind_err (get_crs s ''crs'') (\<lambda>c. hvplot_image L a)))]"

text \<open>
  \<^verbatim>\<open>res_1000 = 1e3\<close>
  \<^verbatim>\<open>x_1000 = np.arange(xmin, xmax, res)\<close>
  \<^verbatim>\<open>y_1000 = np.arange(ymin, ymax, res)\<close>
\<close>

definition cell22 :: "stmt list" where
  "cell22 =
     [Assign ''res_1000'' (\<lambda>s. Inr (VNum 1000)),
      Assign ''x_1000'' (np_arange ''xmin'' ''xmax'' ''res''),
      Assign ''y_1000'' (np_arange ''ymin'' ''ymax'' ''res'')]"

text \<open>
  \<^verbatim>\<open>diff_res_1000 = (diff_regridded\<close>
  \<^verbatim>\<open>    .groupby_bins('x', x_1000, labels=x[:-1]).mean(dim='x')\<close>
  \<^verbatim>\<open>    .groupby_bins('y', y_1000, labels=y[:-1]).mean(dim='y')\<close>
  \<^verbatim>\<open>    .rename(x_bins='x', y_bins='y'))\<close>
  \<^verbatim>\<open>diff_res_1000\<close>
  The binned dimension keeps its place in the two-dimensional array, so the renaming has
  nothing to change here.
\<close>

definition cell23 :: "library \<Rightarrow> stmt list" where
  "cell23 L =
     [Assign ''diff_res_1000'' (\<lambda>s. bind_err (get_array s ''diff_regridded'') (\<lambda>a.
         bind_err (get_coords s ''x_1000'') (\<lambda>bx. bind_err (get_coords s ''x'') (\<lambda>x.
         bind_err (groupby_bins_mean L ''x'' a bx (butlast x)) (\<lambda>a1.
         bind_err (get_coords s ''y_1000'') (\<lambda>by. bind_err (get_coords s ''y'') (\<lambda>y.
         bind_err (groupby_bins_mean L ''y'' a1 by (butlast y)) (\<lambda>a2.
           Inr (VArray a2))))))))),
      display ''diff_res_1000'']"

text \<open>\<^verbatim>\<open># Exercise: Try to aggregate using a method other than mean.\<close>\<close>

definition cell24 :: "stmt list" where
  "cell24 = []"

definition notebook :: "library \<Rightarrow> stmt list list" where
  "notebook L =
     [cell01 L, cell02 L, cell03, cell04, cell05, cell06 L, cell07, cell08, cell09, cell10,
      cell11 L, cell12 L, cell13, cell14 L, cell15, cell16, cell17 L, cell18, cell19 L,
      cell20, cell21 L, cell22, cell23 L, cell24]"

text \<open>Running the first \<open>k\<close> cells from the top, in order, starting from a store.\<close>

definition run_cells :: "library \<Rightarrow> nat \<Rightarrow> store \<Rightarrow> error + store" where
  "run_cells L k s = run (concat (take k (notebook L))) s"

section \<open>A small instance\<close>

text \<open>
  A catalog of two rasters of two by two pixels with the bands 3, 4 and 5, and a library
  whose calls all succeed: the instance at which the theorems below are tried.
\<close>

definition example_raster :: raster where
  "example_raster =
     \<lparr>rs_band = [3, 4, 5], rs_y = [0, 30], rs_x = [0, 30],
      rs_values = [[[Fin 1, Fin 0], [Fin 2, Fin 3]],
                   [[Fin 3, Fin 0], [Fin 2, Fin 1]],
                   [[Fin 5, Fin 4], [Fin 2, Fin 0]]],
      rs_chunked = False, rs_crs = Some ''+proj=utm +zone=11''\<rparr>"

definition example_catalog :: catalog where
  "example_catalog =
     [''landsat_5_small'' \<mapsto> Inr example_raster, ''landsat_8_small'' \<mapsto> Inr example_raster]"

definition example_library :: library where
  "example_library =
     \<lparr>hv_extension = Inr (),
      open_catalog = (\<lambda>p. if p = ''../catalog.yml'' then Inr example_catalog
                           else Inl FileNotFoundError),
      proj_to_cartopy = (\<lambda>p. Inr (CartopyCrs p)),
      transform_point = (\<lambda>c lon lat. Inr (15000, 15000)),
      hvplot_image = (\<lambda>a. Inr ()),
      polygons = (\<lambda>b c. Inr ()),
      interpolator = (\<lambda>a x y. Inr (\<lambda>xv yv. value_at a yv xv)),
      groupby_bins_mean = (\<lambda>d a bins labels. Inr a)\<rparr>"

text \<open>
  The same library with a centre point whose easting is the binary64 number
  255069.0257394217 (it is \<open>8764104990187187 / 2^35\<close>): at it, \<open>x_center + buffer\<close> is not
  a binary64 number, and the cells round.
\<close>

definition rounding_library :: library where
  "rounding_library =
     example_library\<lparr>transform_point :=
       \<lambda>c lon lat. Inr (8764104990187187 / 34359738368, 8764104990187187 / 34359738368)\<rparr>"

section \<open>Basic facts\<close>

lemma bind_err_simps [simp]:
  "bind_err (Inl e) f = Inl e"
  "bind_err (Inr v) f = f v"
  by (simp_all add: bind_err_def)

lemma bind_err_Inr: "bind_err m f = Inr v \<longleftrightarrow> (\<exists>u. m = Inr u \<and> f u = Inr v)"
  by (cases m) simp_all

lemma lookup_Inr: "lookup s n = Inr v \<longleftrightarrow> s n = Some v"
  by (simp add: lookup_def split: option.splits)

lemma get_array_Inr: "get_array s n = Inr a \<longleftrightarrow> s n = Some (VArray a)"
  by (cases "s n") (auto simp: get_array_def lookup_def split: pyval.splits)
lemma get_raster_Inr: "get_raster s n = Inr a \<longleftrightarrow> s n = Some (VRaster a)"
  by (cases "s n") (auto simp: get_raster_def lookup_def split: pyval.splits)
lemma get_num_Inr: "get_num s n = Inr a \<longleftrightarrow> s n = Some (VNum a)"
  by (cases "s n") (auto simp: get_num_def lookup_def split: pyval.splits)
lemma get_coords_Inr: "get_coords s n = Inr a \<longleftrightarrow> s n = Some (VCoords a)"
  by (cases "s n") (auto simp: get_coords_def lookup_def split: pyval.splits)
lemma get_box_Inr: "get_box s n = Inr a \<longleftrightarrow> s n = Some (VBox a)"
  by (cases "s n") (auto simp: get_box_def lookup_def split: pyval.splits)
lemma get_catalog_Inr: "get_catalog s n = Inr a \<longleftrightarrow> s n = Some (VCatalog a)"
  by (cases "s n") (auto simp: get_catalog_def lookup_def split: pyval.splits)
lemma get_crs_Inr: "get_crs s n = Inr a \<longleftrightarrow> s n = Some (VCrs a)"
  by (cases "s n") (auto simp: get_crs_def lookup_def split: pyval.splits)
lemma get_dataset_Inr: "get_dataset s n = Inr a \<longleftrightarrow> s n = Some (VDataset a)"
  by (cases "s n") (auto simp: get_dataset_def lookup_def split: pyval.splits)

lemmas get_Inr = get_array_Inr get_raster_Inr get_num_Inr get_coords_Inr get_box_Inr
  get_catalog_Inr get_crs_Inr get_dataset_Inr lookup_Inr

lemma get_bound:
  "s n = Some v \<Longrightarrow> lookup s n = Inr v"
  "s n = Some (VArray a) \<Longrightarrow> get_array s n = Inr a"
  "s n = Some (VRaster r) \<Longrightarrow> get_raster s n = Inr r"
  "s n = Some (VNum x) \<Longrightarrow> get_num s n = Inr x"
  "s n = Some (VCoords c) \<Longrightarrow> get_coords s n = Inr c"
  "s n = Some (VBox b) \<Longrightarrow> get_box s n = Inr b"
  "s n = Some (VCatalog k) \<Longrightarrow> get_catalog s n = Inr k"
  "s n = Some (VCrs p) \<Longrightarrow> get_crs s n = Inr p"
  "s n = Some (VDataset d) \<Longrightarrow> get_dataset s n = Inr d"
  by (simp_all add: get_Inr)

lemmas cells = cell01_def cell02_def cell03_def cell04_def cell05_def cell06_def cell07_def
  cell08_def cell09_def cell10_def cell11_def cell12_def cell13_def cell14_def cell15_def
  cell16_def cell17_def cell18_def cell19_def cell20_def cell21_def cell22_def cell23_def cell24_def


lemma run_append: "run (a @ b) s = bind_err (run a s) (run b)"
  by (induction a arbitrary: s) (simp_all add: bind_err_def split: sum.splits)

lemma run_cells_step:
  assumes "k < 24"
  shows "run_cells L (k + 1) s0 = bind_err (run_cells L k s0) (run (notebook L ! k))"
proof -
  have "k < length (notebook L)" using assms by (simp add: notebook_def)
  then have "take (k + 1) (notebook L) = take k (notebook L) @ [notebook L ! k]"
    by (simp add: take_Suc_conv_app_nth)
  then show ?thesis by (simp add: run_cells_def run_append)
qed

lemma run_cells_prefix:
  assumes "run_cells L n s0 = Inr s" and "k \<le> n"
  shows "\<exists>s'. run_cells L k s0 = Inr s'"
proof -
  have "take n (notebook L) = take k (notebook L) @ drop k (take n (notebook L))"
    using assms(2) by (metis append_take_drop_id min.absorb1 take_take)
  then have "concat (take n (notebook L)) =
      concat (take k (notebook L)) @ concat (drop k (take n (notebook L)))"
    by (metis concat_append)
  with assms(1) show ?thesis
    by (auto simp: run_cells_def run_append bind_err_Inr)
qed

lemma exec_frame: "exec c s = Inr s' \<Longrightarrow> n \<notin> targets c \<Longrightarrow> s' n = s n"
  by (cases c) (auto simp: bind_err_Inr get_Inr)

lemma run_frame: "run cs s = Inr s' \<Longrightarrow> n \<notin> \<Union> (targets ` set cs) \<Longrightarrow> s' n = s n"
proof (induction cs arbitrary: s)
  case Nil then show ?case by simp
next
  case (Cons c cs)
  then obtain m where m: "exec c s = Inr m" "run cs m = Inr s'"
    by (auto simp: bind_err_Inr)
  with Cons show ?case using exec_frame [OF m(1), of n] by auto
qed

subsection \<open>Rounding to binary64\<close>

lemma round_even_error: "\<bar>of_int (round_even z) - z\<bar> \<le> 1 / 2"
  unfolding round_even_def Let_def by (auto; linarith)

lemma round_even_of_int [simp]: "round_even (of_int k) = k"
  by (simp add: round_even_def)

lemma powi2_less_imp: "(2::real) powi a < 2 powi b \<Longrightarrow> a < b"
proof (rule ccontr)
  assume l: "(2::real) powi a < 2 powi b" and "\<not> a < b"
  then have "b \<le> a" by simp
  then have "(2::real) powi b \<le> 2 powi a" by (rule power_int_increasing) simp
  with l show False by simp
qed

lemma expo_bounds:
  assumes "x \<noteq> 0"
  shows "2 powi (expo x) \<le> \<bar>x\<bar> \<and> \<bar>x\<bar> < 2 powi (expo x + 1)"
proof (cases "1 \<le> \<bar>x\<bar>")
  case True
  define n where "n = nat \<lfloor>\<bar>x\<bar>\<rfloor>"
  have n: "0 < n" "real n \<le> \<bar>x\<bar>" "\<bar>x\<bar> < real n + 1"
    using True unfolding n_def by (auto; linarith)+
  from floorlog_bounds [OF n(1), of 2] have b: "2 ^ (floorlog 2 n - 1) \<le> n" "n < 2 ^ floorlog 2 n"
    by auto
  have p: "0 < floorlog 2 n" using n(1) by (simp add: floorlog_def)
  have e: "expo x = int (floorlog 2 n) - 1"
    using True by (simp add: expo_def n_def)
  have "expo x = int (floorlog 2 n - 1)" using e p by simp
  then have "(2::real) powi (expo x) = 2 ^ (floorlog 2 n - 1)" by simp
  also have "\<dots> \<le> real n"
  proof -
    have "real (2 ^ (floorlog 2 n - 1)) \<le> real n" using b(1) by (simp only: of_nat_le_iff)
    then show ?thesis by simp
  qed
  finally have lo: "2 powi (expo x) \<le> \<bar>x\<bar>" using n(2) by simp
  have "n + 1 \<le> 2 ^ floorlog 2 n" using b(2) by simp
  then have "real (n + 1) \<le> real (2 ^ floorlog 2 n)" by (simp only: of_nat_le_iff)
  then have "real n + 1 \<le> 2 ^ floorlog 2 n" by simp
  moreover have "(2::real) powi (expo x + 1) = 2 ^ floorlog 2 n" using e by simp
  ultimately have "\<bar>x\<bar> < 2 powi (expo x + 1)" using n(3) by simp
  with lo show ?thesis by simp
next
  case False
  define y where "y = 1 / \<bar>x\<bar>"
  have y: "1 < y" using False assms by (simp add: y_def)
  define m where "m = nat (\<lceil>y\<rceil> - 1)"
  have m: "0 < m" "real m < y" "y \<le> real m + 1"
    using y unfolding m_def by (auto; linarith)+
  from floorlog_bounds [OF m(1), of 2] have b: "2 ^ (floorlog 2 m - 1) \<le> m" "m < 2 ^ floorlog 2 m"
    by auto
  have p: "0 < floorlog 2 m" using m(1) by (simp add: floorlog_def)
  have e: "expo x = - int (floorlog 2 m)"
    using False by (simp add: expo_def m_def y_def)
  have "m + 1 \<le> 2 ^ floorlog 2 m" using b(2) by simp
  then have "real (m + 1) \<le> real (2 ^ floorlog 2 m)" by (simp only: of_nat_le_iff)
  then have "real m + 1 \<le> 2 ^ floorlog 2 m" by simp
  with m(3) have "y \<le> 2 ^ floorlog 2 m" by simp
  then have "1 / 2 ^ floorlog 2 m \<le> \<bar>x\<bar>"
    using assms by (simp add: y_def field_simps)
  moreover have "(2::real) powi (expo x) = 1 / 2 ^ floorlog 2 m"
    using e by (simp add: power_int_minus_divide)
  ultimately have lo: "2 powi (expo x) \<le> \<bar>x\<bar>" by simp
  have "real (2 ^ (floorlog 2 m - 1)) \<le> real m" using b(1) by (simp only: of_nat_le_iff)
  then have "2 ^ (floorlog 2 m - 1) \<le> real m" by simp
  with m(2) have "2 ^ (floorlog 2 m - 1) < y" by linarith
  then have "\<bar>x\<bar> < 1 / 2 ^ (floorlog 2 m - 1)"
    using assms by (simp add: y_def field_simps)
  moreover have "expo x + 1 = - int (floorlog 2 m - 1)" using e p by simp
  then have "(2::real) powi (expo x + 1) = 1 / 2 ^ (floorlog 2 m - 1)"
    by (simp add: power_int_minus_divide)
  ultimately have "\<bar>x\<bar> < 2 powi (expo x + 1)" by simp
  with lo show ?thesis by simp
qed

lemma expo_eqI:
  assumes "2 powi e \<le> \<bar>x\<bar>" and "\<bar>x\<bar> < 2 powi (e + 1)"
  shows "expo x = e"
proof -
  have p: "(0::real) < 2 powi e" by simp
  have nz: "x \<noteq> 0"
  proof
    assume "x = 0"
    with assms(1) have "(2::real) powi e \<le> 0" by simp
    with p show False by linarith
  qed
  from expo_bounds [OF nz] have b: "2 powi (expo x) \<le> \<bar>x\<bar>" "\<bar>x\<bar> < 2 powi (expo x + 1)"
    by auto
  have "(2::real) powi e < 2 powi (expo x + 1)" using assms(1) b(2) by simp
  then have 1: "e < expo x + 1" by (rule powi2_less_imp)
  have "(2::real) powi (expo x) < 2 powi (e + 1)" using assms(2) b(1) by simp
  then have 2: "expo x < e + 1" by (rule powi2_less_imp)
  from 1 2 show ?thesis by simp
qed

lemma binary64_exact:
  assumes "x = of_int m * 2 powi j" and "\<bar>m\<bar> < 2 ^ 53"
  shows "binary64 x = x"
proof (cases "x = 0")
  case True
  then show ?thesis by (simp add: binary64_def)
next
  case False
  from expo_bounds [OF False] have "2 powi (expo x) \<le> \<bar>x\<bar>" by simp
  also have "\<bar>x\<bar> = \<bar>of_int m\<bar> * 2 powi j"
    by (simp add: assms(1) abs_mult)
  also have "\<dots> < 2 ^ 53 * 2 powi j"
  proof -
    have "real_of_int \<bar>m\<bar> < real_of_int (2 ^ 53)"
      using assms(2) by (simp only: of_int_less_iff)
    then have "\<bar>of_int m :: real\<bar> < 2 ^ 53" by simp
    then show ?thesis by (simp add: mult_strict_right_mono)
  qed
  also have "\<dots> = 2 powi (53 + j)" by (simp add: power_int_add)
  finally have "expo x < 53 + j" by (rule powi2_less_imp)
  define k where "k = nat (j - (expo x - 52))"
  have k: "j - (expo x - 52) = int k" using \<open>expo x < 53 + j\<close> by (simp add: k_def)
  have "x / 2 powi (expo x - 52) = of_int m * 2 powi (j - (expo x - 52))"
    by (simp add: assms(1) power_int_diff)
  also have "\<dots> = of_int (m * 2 ^ k)" by (simp add: k)
  finally have q: "x / 2 powi (expo x - 52) = of_int (m * 2 ^ k)" .
  have r: "round_even (x / 2 powi (expo x - 52)) = m * 2 ^ k"
    unfolding q by (rule round_even_of_int)
  have "binary64 x = of_int (m * 2 ^ k) * 2 powi (expo x - 52)"
    using False by (simp add: binary64_def r)
  also have "\<dots> = of_int m * (2 powi (int k) * 2 powi (expo x - 52))" by simp
  also have "2 powi (int k) * 2 powi (expo x - 52) = (2::real) powi (int k + (expo x - 52))"
    by (simp add: power_int_add)
  also have "int k + (expo x - 52) = j" using k by simp
  finally show ?thesis by (simp add: assms(1))
qed

lemma binary64_error: "\<bar>binary64 x - x\<bar> \<le> \<bar>x\<bar> / 2 ^ 53"
proof (cases "x = 0")
  case True
  then show ?thesis by (simp add: binary64_def)
next
  case False
  let ?u = "(2::real) powi (expo x - 52)"
  have u: "0 < ?u" by simp
  have "binary64 x - x = (of_int (round_even (x / ?u)) - x / ?u) * ?u"
    using False by (simp add: binary64_def algebra_simps)
  then have "\<bar>binary64 x - x\<bar> = \<bar>of_int (round_even (x / ?u)) - x / ?u\<bar> * ?u"
    using u by (simp add: abs_mult)
  also have "\<dots> \<le> 1 / 2 * ?u"
    using round_even_error [of "x / ?u"] u by (simp add: mult_right_mono)
  also have "1 / 2 * ?u = 2 powi (expo x) / 2 ^ 53"
    by (simp add: power_int_diff)
  also have "\<dots> \<le> \<bar>x\<bar> / 2 ^ 53"
    using expo_bounds [OF False] by (simp add: divide_right_mono)
  finally show ?thesis .
qed

lemma binary64_eval:
  assumes "2 powi e \<le> \<bar>x\<bar>" and "\<bar>x\<bar> < 2 powi (e + 1)"
  shows "binary64 x = of_int (round_even (x / 2 powi (e - 52))) * 2 powi (e - 52)"
proof -
  have p: "(0::real) < 2 powi e" by simp
  have "x \<noteq> 0"
  proof
    assume "x = 0"
    with assms(1) have "(2::real) powi e \<le> 0" by simp
    with p show False by linarith
  qed
  then show ?thesis by (simp add: binary64_def expo_eqI [OF assms])
qed

lemma binary64_of_int:
  assumes "\<bar>t\<bar> < 2 ^ 53"
  shows "binary64 (of_int t) = of_int t"
proof -
  have "real_of_int t = of_int t * 2 powi 0" by simp
  from binary64_exact [OF this assms] show ?thesis .
qed

text \<open>
  A number with spare bits: \<open>xc = m * 2^j\<close> with \<open>j \<le> 0\<close> and
  \<open>|m| + 15000 * 2^(-j) < 2^53\<close>. Moving it by a whole number of at most 15000 needs no
  rounding.
\<close>

lemma binary64_shift:
  assumes "xc = of_int m * 2 powi j" and "j \<le> 0"
    and "\<bar>m\<bar> + 15000 * 2 ^ nat (- j) < 2 ^ 53" and "\<bar>t\<bar> \<le> 15000"
  shows "binary64 (xc + of_int t) = xc + of_int t"
proof -
  define k where "k = nat (- j)"
  have j: "j = - int k" using assms(2) by (simp add: k_def)
  have u: "(2::real) ^ k * 2 powi j = 1" by (simp add: j power_int_minus)
  have "of_int (m + t * 2 ^ k) * 2 powi j =
      (of_int m + of_int t * 2 ^ k) * (2::real) powi j" by simp
  also have "\<dots> = of_int m * 2 powi j + of_int t * (2 ^ k * 2 powi j)"
    by (simp only: distrib_right mult.assoc)
  finally have "of_int (m + t * 2 ^ k) * 2 powi j =
      of_int m * 2 powi j + of_int t * ((2::real) ^ k * 2 powi j)" .
  then have e: "xc + of_int t = of_int (m + t * 2 ^ k) * 2 powi j"
    by (simp add: u assms(1))
  have "\<bar>t * 2 ^ k\<bar> \<le> 15000 * 2 ^ k"
    using assms(4) by (simp add: abs_mult mult_right_mono)
  then have "\<bar>m + t * 2 ^ k\<bar> \<le> \<bar>m\<bar> + 15000 * 2 ^ k" by linarith
  with assms(3) have "\<bar>m + t * 2 ^ k\<bar> < 2 ^ 53" by (simp add: k_def)
  from binary64_exact [OF e this] show ?thesis .
qed

subsection \<open>Running cells\<close>

lemma run_cells_last:
  assumes "k < 24" and "run_cells L (k + 1) s0 = Inr s"
  shows "\<exists>m. run_cells L k s0 = Inr m \<and> run (notebook L ! k) m = Inr s"
  using assms(2) unfolding run_cells_step [OF assms(1)] by (simp add: bind_err_Inr)

lemma run_cells_frame:
  assumes "k \<le> n" and "run_cells L n s0 = Inr s"
  shows "\<exists>m. run_cells L k s0 = Inr m \<and>
           (\<forall>v. v \<notin> \<Union> (targets ` set (concat (drop k (take n (notebook L))))) \<longrightarrow> s v = m v)"
proof -
  have "take n (notebook L) = take k (notebook L) @ drop k (take n (notebook L))"
    using assms(1) by (metis append_take_drop_id min.absorb1 take_take)
  then have "concat (take n (notebook L)) =
      concat (take k (notebook L)) @ concat (drop k (take n (notebook L)))"
    by (metis concat_append)
  with assms(2) obtain m where m: "run_cells L k s0 = Inr m"
      "run (concat (drop k (take n (notebook L)))) m = Inr s"
    by (auto simp: run_cells_def run_append bind_err_Inr)
  from run_frame [OF m(2)] m(1) show ?thesis by blast
qed

subsection \<open>arange\<close>

lemma arange_values_length:
  "length (arange_values a b st) = nat \<lceil>binary64 (binary64 (b - a) / st)\<rceil>"
  by (simp add: arange_values_def Let_def)

lemma arange_values_nth:
  assumes "i < length (arange_values a b st)"
  shows "arange_values a b st ! i =
           (if i = 0 then a else if i = 1 then binary64 (a + st)
            else binary64 (a + binary64 (real i * binary64 (binary64 (a + st) - a))))"
  using assms by (simp add: arange_values_def Let_def)

lemma arange_values_first: "arange_values a b st \<noteq> [] \<Longrightarrow> arange_values a b st ! 0 = a"
  by (simp add: arange_values_nth)

text \<open>The grid of the region when nothing is rounded, and what is regular about it.\<close>

lemma arange_values_exact:
  assumes "xc = of_int m * 2 powi j" and "j \<le> 0"
    and "\<bar>m\<bar> + 15000 * 2 ^ nat (- j) < 2 ^ 53"
  shows "arange_values (xc - 15000) (xc + 15000) 200 =
           map (\<lambda>i. xc - 15000 + real i * 200) [0..<150]"
proof -
  note sh = binary64_shift [OF assms]
  have b200: "binary64 200 = 200" using binary64_of_int [of 200] by simp
  have "xc - 15000 + 200 = xc + of_int (- 14800)" by simp
  moreover have "binary64 (xc + of_int (- 14800)) = xc + of_int (- 14800)"
    by (rule sh) simp
  ultimately have n: "binary64 (xc - 15000 + 200) = xc - 15000 + 200" by (simp only:)
  have "xc - 15000 + 200 - (xc - 15000) = 200" by simp
  with b200 have d: "binary64 (xc - 15000 + 200 - (xc - 15000)) = 200" by (simp only:)
  have "binary64 (xc + 15000 - (xc - 15000)) = 30000"
    using binary64_of_int [of 30000] by simp
  moreover have "binary64 (30000 / 200) = 150" using binary64_of_int [of 150] by simp
  ultimately have l: "nat \<lceil>binary64 (binary64 (xc + 15000 - (xc - 15000)) / 200)\<rceil> = 150"
    by simp
  have el: "binary64 (xc - 15000 + binary64 (real i * 200)) = xc - 15000 + real i * 200"
    if "i < 150" for i
  proof -
    have "binary64 (of_int (int i * 200)) = of_int (int i * 200)"
      using that by (intro binary64_of_int) simp
    then have 1: "binary64 (real i * 200) = real i * 200" by simp
    have "binary64 (xc + of_int (int i * 200 - 15000)) = xc + of_int (int i * 200 - 15000)"
      using that by (intro sh) simp
    moreover have "xc + of_int (int i * 200 - 15000) = xc - 15000 + real i * 200" by simp
    ultimately have "binary64 (xc - 15000 + real i * 200) = xc - 15000 + real i * 200"
      by (simp only:)
    with 1 show ?thesis by (simp only:)
  qed
  show ?thesis
    unfolding arange_values_def Let_def l
  proof (rule map_cong [OF refl])
    fix i assume "i \<in> set [0..<150]"
    then have i: "i < 150" by (simp del: upt_rec_numeral)
    consider "i = 0" | "i = 1" | "i \<noteq> 0 \<and> i \<noteq> 1" by blast
    then show "(if i = 0 then xc - 15000
                else if i = 1 then binary64 (xc - 15000 + 200)
                else binary64 (xc - 15000 + binary64 (real i *
                       binary64 (binary64 (xc - 15000 + 200) - (xc - 15000))))) =
               xc - 15000 + real i * 200"
    proof cases
      case 1
      then show ?thesis by simp
    next
      case 2
      then show ?thesis by (simp only: n) simp
    next
      case 3
      then have "(i = 0) = False" "(i = 1) = False" by simp_all
      then show ?thesis by (simp only: if_False n d el [OF i])
    qed
  qed
qed

lemma regular_grid:
  fixes a :: real
  defines "g \<equiv> map (\<lambda>i. a + real i * 200) [0..<150]"
  shows "length g = 150" and "g ! 0 = a"
    and "\<forall>i. i + 1 < length g \<longrightarrow> g ! (i + 1) - g ! i = 200"
    and "\<forall>v \<in> set g. a \<le> v \<and> v < a + 30000"
proof -
  show "length g = 150" by (simp add: g_def del: upt_rec_numeral)
  show "g ! 0 = a" by (simp add: g_def del: upt_rec_numeral)
  show "\<forall>i. i + 1 < length g \<longrightarrow> g ! (i + 1) - g ! i = 200"
    by (simp add: g_def algebra_simps del: upt_rec_numeral)
  show "\<forall>v \<in> set g. a \<le> v \<and> v < a + 30000"
  proof
    fix v assume "v \<in> set g"
    then obtain i where "i < 150" "v = a + real i * 200"
      by (auto simp: g_def simp del: upt_rec_numeral)
    then show "a \<le> v \<and> v < a + 30000" by simp
  qed
qed

subsection \<open>The region and the grid\<close>

lemma cell13_run:
  assumes "s ''x_center'' = Some (VNum xc)" and "s ''y_center'' = Some (VNum yc)"
  shows "run cell13 s =
           Inr (s(''buffer'' \<mapsto> VNum 15000,
                  ''xmin'' \<mapsto> VNum (binary64 (xc - 15000)),
                  ''xmax'' \<mapsto> VNum (binary64 (xc + 15000)),
                  ''ymin'' \<mapsto> VNum (binary64 (yc - 15000)),
                  ''ymax'' \<mapsto> VNum (binary64 (yc + 15000)),
                  ''bounding_box'' \<mapsto>
                     VBox (bounding_box (binary64 (xc - 15000)) (binary64 (xc + 15000))
                             (binary64 (yc - 15000)) (binary64 (yc + 15000)))))"
  using assms by (simp add: cell13_def num_binop_def get_bound)

lemma cell12_Inr:
  assumes "run (cell12 L) s = Inr s'"
  shows "\<exists>c xc yc. s ''crs'' = Some (VCrs c) \<and>
           transform_point L c (binary64 (- 118.7081)) (binary64 38.6942) = Inr (xc, yc) \<and>
           s' = s(''x_center'' \<mapsto> VNum xc, ''y_center'' \<mapsto> VNum yc)"
  using assms by (auto simp: cell12_def bind_err_Inr get_Inr)

lemma cell15_run:
  assumes "s ''xmin'' = Some (VNum xmin)" and "s ''xmax'' = Some (VNum xmax)"
    and "s ''ymin'' = Some (VNum ymin)" and "s ''ymax'' = Some (VNum ymax)"
  shows "run cell15 s =
           Inr (s(''res'' \<mapsto> VNum 200,
                  ''x'' \<mapsto> VCoords (arange_values xmin xmax 200),
                  ''y'' \<mapsto> VCoords (arange_values ymin ymax 200)))"
  using assms by (simp add: cell15_def np_arange_def arange_def get_bound)

lemma center_state:
  assumes "run_cells L 12 s0 = Inr s"
  shows "\<exists>c xc yc. s ''crs'' = Some (VCrs c) \<and>
           transform_point L c (binary64 (- 118.7081)) (binary64 38.6942) = Inr (xc, yc) \<and>
           s ''x_center'' = Some (VNum xc) \<and> s ''y_center'' = Some (VNum yc)"
proof -
  from run_cells_last [of 11 L s0 s] assms obtain m where
    m: "run (cell12 L) m = Inr s" by (auto simp: notebook_def)
  from cell12_Inr [OF m] show ?thesis by auto
qed

lemma region_state:
  assumes "run_cells L 13 s0 = Inr s"
  shows "\<exists>c xc yc.
           transform_point L c (binary64 (- 118.7081)) (binary64 38.6942) = Inr (xc, yc) \<and>
           s ''x_center'' = Some (VNum xc) \<and> s ''y_center'' = Some (VNum yc) \<and>
           s ''xmin'' = Some (VNum (binary64 (xc - 15000))) \<and>
           s ''xmax'' = Some (VNum (binary64 (xc + 15000))) \<and>
           s ''ymin'' = Some (VNum (binary64 (yc - 15000))) \<and>
           s ''ymax'' = Some (VNum (binary64 (yc + 15000)))"
proof -
  from run_cells_last [of 12 L s0 s] assms obtain m where
    m: "run_cells L 12 s0 = Inr m" "run cell13 m = Inr s" by (auto simp: notebook_def)
  from center_state [OF m(1)] obtain c xc yc where
    t: "transform_point L c (binary64 (- 118.7081)) (binary64 38.6942) = Inr (xc, yc)" and
    c: "m ''x_center'' = Some (VNum xc)" "m ''y_center'' = Some (VNum yc)" by blast
  from m(2) cell13_run [OF c] have "s = m(''buffer'' \<mapsto> VNum 15000,
                  ''xmin'' \<mapsto> VNum (binary64 (xc - 15000)),
                  ''xmax'' \<mapsto> VNum (binary64 (xc + 15000)),
                  ''ymin'' \<mapsto> VNum (binary64 (yc - 15000)),
                  ''ymax'' \<mapsto> VNum (binary64 (yc + 15000)),
                  ''bounding_box'' \<mapsto>
                     VBox (bounding_box (binary64 (xc - 15000)) (binary64 (xc + 15000))
                             (binary64 (yc - 15000)) (binary64 (yc + 15000))))"
    by simp
  with c have "s ''x_center'' = Some (VNum xc) \<and> s ''y_center'' = Some (VNum yc) \<and>
           s ''xmin'' = Some (VNum (binary64 (xc - 15000))) \<and>
           s ''xmax'' = Some (VNum (binary64 (xc + 15000))) \<and>
           s ''ymin'' = Some (VNum (binary64 (yc - 15000))) \<and>
           s ''ymax'' = Some (VNum (binary64 (yc + 15000)))"
    by simp
  with t show ?thesis by blast
qed

lemma grid_state:
  assumes "run_cells L 14 s0 = Inr s"
  shows "\<exists>c xc yc.
           transform_point L c (binary64 (- 118.7081)) (binary64 38.6942) = Inr (xc, yc) \<and>
           s ''x_center'' = Some (VNum xc) \<and> s ''y_center'' = Some (VNum yc) \<and>
           s ''xmin'' = Some (VNum (binary64 (xc - 15000))) \<and>
           s ''xmax'' = Some (VNum (binary64 (xc + 15000))) \<and>
           s ''ymin'' = Some (VNum (binary64 (yc - 15000))) \<and>
           s ''ymax'' = Some (VNum (binary64 (yc + 15000))) \<and>
           run_cells L 15 s0 =
             Inr (s(''res'' \<mapsto> VNum 200,
                    ''x'' \<mapsto> VCoords (arange_values (binary64 (xc - 15000))
                                        (binary64 (xc + 15000)) 200),
                    ''y'' \<mapsto> VCoords (arange_values (binary64 (yc - 15000))
                                        (binary64 (yc + 15000)) 200)))"
proof -
  from run_cells_last [of 13 L s0 s] assms obtain m where
    m: "run_cells L 13 s0 = Inr m" "run (cell14 L) m = Inr s" by (auto simp: notebook_def)
  from m(2) have "s = m" by (auto simp: cell14_def bind_err_Inr)
  with region_state [OF m(1)] obtain c xc yc where
    t: "transform_point L c (binary64 (- 118.7081)) (binary64 38.6942) = Inr (xc, yc)"
       "s ''x_center'' = Some (VNum xc)" "s ''y_center'' = Some (VNum yc)" and
    b: "s ''xmin'' = Some (VNum (binary64 (xc - 15000)))"
       "s ''xmax'' = Some (VNum (binary64 (xc + 15000)))"
       "s ''ymin'' = Some (VNum (binary64 (yc - 15000)))"
       "s ''ymax'' = Some (VNum (binary64 (yc + 15000)))"
    by auto
  have "run_cells L 15 s0 = run cell15 s"
    using run_cells_step [of 14 L s0] assms by (simp add: notebook_def)
  with t b cell15_run [OF b] show ?thesis by auto
qed

lemma after_grid:
  assumes "run_cells L 15 s0 = Inr s"
  shows "\<exists>c xc yc.
           transform_point L c (binary64 (- 118.7081)) (binary64 38.6942) = Inr (xc, yc) \<and>
           s ''x_center'' = Some (VNum xc) \<and> s ''y_center'' = Some (VNum yc) \<and>
           s ''xmin'' = Some (VNum (binary64 (xc - 15000))) \<and>
           s ''xmax'' = Some (VNum (binary64 (xc + 15000))) \<and>
           s ''ymin'' = Some (VNum (binary64 (yc - 15000))) \<and>
           s ''ymax'' = Some (VNum (binary64 (yc + 15000))) \<and>
           s ''res'' = Some (VNum 200) \<and>
           s ''x'' = Some (VCoords (arange_values (binary64 (xc - 15000))
                                      (binary64 (xc + 15000)) 200)) \<and>
           s ''y'' = Some (VCoords (arange_values (binary64 (yc - 15000))
                                      (binary64 (yc + 15000)) 200))"
proof -
  from run_cells_prefix [OF assms, of 14] obtain m where m: "run_cells L 14 s0 = Inr m"
    by auto
  from grid_state [OF m] assms show ?thesis by auto
qed

subsection \<open>The small instance runs to its end\<close>

lemma example_runs: "\<exists>s. run_cells example_library 24 Map.empty = Inr s"
  apply (simp add: run_cells_def notebook_def)
  apply (simp add: cells display_def plot_def example_library_def example_catalog_def
      get_bound read_chunked_def crs_attr_def NDVI_1988_def NDVI_2017_def sel_band_def
      example_raster_def binop_def align_inner_def reindex_def item_def num_binop_def
      np_arange_def arange_def regrid_def interp_def load_def Dataset_def align_outer_def
      getattr_def getitem_def diff_regridded_def Let_def)
  done

subsection \<open>The instance that rounds\<close>

lemma rounding_runs: "\<exists>s. run_cells rounding_library 15 Map.empty = Inr s"
  apply (simp add: run_cells_def notebook_def)
  apply (simp add: cells display_def plot_def rounding_library_def example_library_def
      example_catalog_def lookup_def get_raster_def get_array_def get_num_def get_box_def
      get_catalog_def get_crs_def read_chunked_def crs_attr_def NDVI_1988_def NDVI_2017_def
      sel_band_def example_raster_def binop_def align_inner_def reindex_def item_def
      num_binop_def np_arange_def arange_def Let_def)
  done

lemma rounding_bounds:
  "binary64 (8764104990187187 / 34359738368 - 15000) = 8248708914667187 / 34359738368"
  "binary64 (8764104990187187 / 34359738368 + 15000) = 2319875266426797 / 8589934592"
  by (subst binary64_eval [of 17], simp_all add: round_even_def)
    (subst binary64_eval [of 18], simp_all add: round_even_def)

lemma rounding_length:
  "binary64 (2319875266426797 / 8589934592 - 8248708914667187 / 34359738368) =
     1030792151040001 / 34359738368"
  "binary64 (1030792151040001 / 34359738368 / 200) = 5277655813324805 / 35184372088832"
  by (subst binary64_eval [of 14], simp_all add: round_even_def)
    (subst binary64_eval [of 7], simp_all add: round_even_def)

lemma rounding_delta:
  "binary64 (8248708914667187 / 34359738368 + 200) = 8255580862340787 / 34359738368"
  "binary64 (8255580862340787 / 34359738368 - 8248708914667187 / 34359738368) = 200"
  by (subst binary64_eval [of 17], simp_all add: round_even_def)
    (subst binary64_eval [of 7], simp_all add: round_even_def)

lemma rounding_points:
  "binary64 (8248708914667187 / 34359738368 + binary64 (110 * 200)) =
     9004623158763187 / 34359738368"
  "binary64 (8248708914667187 / 34359738368 + binary64 (111 * 200)) =
     2252873776609197 / 8589934592"
  "binary64 (8248708914667187 / 34359738368 + binary64 (150 * 200)) =
     2319875266426797 / 8589934592"
proof -
  have i: "binary64 (110 * 200) = 22000" "binary64 (111 * 200) = 22200"
    "binary64 (150 * 200) = 30000"
    using binary64_of_int [of 22000] binary64_of_int [of 22200] binary64_of_int [of 30000]
    by simp_all
  show "binary64 (8248708914667187 / 34359738368 + binary64 (110 * 200)) =
     9004623158763187 / 34359738368"
    unfolding i by (subst binary64_eval [of 17]) (simp_all add: round_even_def)
  show "binary64 (8248708914667187 / 34359738368 + binary64 (111 * 200)) =
     2252873776609197 / 8589934592"
    unfolding i by (subst binary64_eval [of 18]) (simp_all add: round_even_def)
  show "binary64 (8248708914667187 / 34359738368 + binary64 (150 * 200)) =
     2319875266426797 / 8589934592"
    unfolding i by (subst binary64_eval [of 18]) (simp_all add: round_even_def)
qed

lemma rounding_grid:
  defines "g \<equiv> arange_values (8248708914667187 / 34359738368) (2319875266426797 / 8589934592) 200"
  shows "length g = 151" and "g ! 150 = 2319875266426797 / 8589934592"
    and "g ! 111 - g ! 110 = 200 + 1 / 34359738368"
proof -
  have "\<lceil>5277655813324805 / 35184372088832 :: real\<rceil> = 151" by simp
  then show l: "length g = 151"
    unfolding g_def arange_values_length rounding_length by simp
  have d: "binary64 (binary64 (8248708914667187 / 34359738368 + 200) -
      8248708914667187 / 34359738368) = 200"
    unfolding rounding_delta ..
  have n: "g ! i = binary64 (8248708914667187 / 34359738368 + binary64 (real i * 200))"
    if "i < 151" "1 < i" for i
  proof -
    from that l have "i < length g" "i \<noteq> 0" "i \<noteq> 1" by simp_all
    from this(2,3) arange_values_nth [OF this(1) [unfolded g_def]] show ?thesis
      unfolding g_def d by (simp only: if_False)
  qed
  have r: "real 150 = 150" "real 111 = 111" "real 110 = 110" by simp_all
  from n [of 150] show "g ! 150 = 2319875266426797 / 8589934592"
    unfolding r rounding_points by simp
  from n [of 111] n [of 110] have "g ! 111 = 2252873776609197 / 8589934592"
    "g ! 110 = 9004623158763187 / 34359738368"
    unfolding r rounding_points by simp_all
  then show "g ! 111 - g ! 110 = 200 + 1 / 34359738368" by simp
qed

subsection \<open>Selections and arithmetic on one grid\<close>

lemma index_of_Some: "index_of v xs = Some i \<Longrightarrow> i < length xs \<and> xs ! i = v"
  by (induction xs arbitrary: i) (auto split: if_splits)

lemma sel_band_shape:
  assumes "wf_raster r" and "sel_band r k = Inr a"
  shows "da_y a = rs_y r \<and> da_x a = rs_x r \<and> da_chunked a = rs_chunked r \<and>
         length (da_values a) = length (rs_y r) \<and>
         (\<forall>i < length (rs_y r). length (da_values a ! i) = length (rs_x r))"
proof -
  from assms(2) obtain n where n: "index_of k (rs_band r) = Some n"
    and a: "a = \<lparr>da_y = rs_y r, da_x = rs_x r, da_values = rs_values r ! n,
                  da_chunked = rs_chunked r\<rparr>"
    by (auto simp: sel_band_def split: option.splits)
  from index_of_Some [OF n] assms(1) have "rs_values r ! n \<in> set (rs_values r)"
    by (simp add: wf_raster_def)
  with assms(1) have "length (rs_values r ! n) = length (rs_y r)"
    "\<forall>row \<in> set (rs_values r ! n). length row = length (rs_x r)"
    by (auto simp: wf_raster_def)
  with a show ?thesis by simp
qed

lemma binop_same_grid:
  assumes "da_y a = da_y b" and "da_x a = da_x b"
  shows "binop f a b =
           \<lparr>da_y = da_y a, da_x = da_x a,
            da_values = map2 (map2 f) (da_values a) (da_values b),
            da_chunked = da_chunked a \<or> da_chunked b\<rparr>"
  using assms by (simp add: binop_def align_inner_def reindex_def)

lemma normalized_difference:
  assumes "da_y p = ys" "da_x p = xs" "da_y q = ys" "da_x q = xs"
    and "length (da_values p) = length ys" "length (da_values q) = length ys"
    and "\<forall>i < length ys. length (da_values p ! i) = length xs"
    and "\<forall>i < length ys. length (da_values q ! i) = length xs"
  defines "nd \<equiv> binop fdiv (binop fsub p q) (binop fadd p q)"
  shows "da_y nd = ys \<and> da_x nd = xs \<and> da_chunked nd = (da_chunked p \<or> da_chunked q) \<and>
         length (da_values nd) = length ys \<and>
         (\<forall>i < length ys. length (da_values nd ! i) = length xs \<and>
            (\<forall>j < length xs. da_values nd ! i ! j =
               fdiv (fsub (da_values p ! i ! j) (da_values q ! i ! j))
                    (fadd (da_values p ! i ! j) (da_values q ! i ! j))))"
  using assms(1-8) unfolding nd_def by (auto simp: binop_same_grid)

lemma NDVI_1988_pixels:
  assumes "wf_raster r" and "sel_band r 4 = Inr nir" and "sel_band r 3 = Inr red"
  shows "\<exists>a. NDVI_1988 r = Inr a \<and> da_y a = rs_y r \<and> da_x a = rs_x r \<and>
           da_chunked a = rs_chunked r \<and>
           length (da_values a) = length (rs_y r) \<and>
           (\<forall>i < length (rs_y r). length (da_values a ! i) = length (rs_x r) \<and>
              (\<forall>j < length (rs_x r). da_values a ! i ! j =
                 fdiv (fsub (da_values nir ! i ! j) (da_values red ! i ! j))
                      (fadd (da_values nir ! i ! j) (da_values red ! i ! j))))"
proof -
  have "NDVI_1988 r = Inr (binop fdiv (binop fsub nir red) (binop fadd nir red))"
    using assms(2,3) by (simp add: NDVI_1988_def)
  moreover note sel_band_shape [OF assms(1,2)] sel_band_shape [OF assms(1,3)]
  ultimately show ?thesis
    using normalized_difference [of nir "rs_y r" "rs_x r" red] by simp
qed

lemma NDVI_2017_pixels:
  assumes "wf_raster r" and "sel_band r 5 = Inr nir" and "sel_band r 4 = Inr red"
  shows "\<exists>a. NDVI_2017 r = Inr a \<and> da_y a = rs_y r \<and> da_x a = rs_x r \<and>
           da_chunked a = rs_chunked r \<and>
           length (da_values a) = length (rs_y r) \<and>
           (\<forall>i < length (rs_y r). length (da_values a ! i) = length (rs_x r) \<and>
              (\<forall>j < length (rs_x r). da_values a ! i ! j =
                 fdiv (fsub (da_values nir ! i ! j) (da_values red ! i ! j))
                      (fadd (da_values nir ! i ! j) (da_values red ! i ! j))))"
proof -
  have "NDVI_2017 r = Inr (binop fdiv (binop fsub nir red) (binop fadd nir red))"
    using assms(2,3) by (simp add: NDVI_2017_def)
  moreover note sel_band_shape [OF assms(1,2)] sel_band_shape [OF assms(1,3)]
  ultimately show ?thesis
    using normalized_difference [of nir "rs_y r" "rs_x r" red] by simp
qed

lemma zero_sum_not_finite:
  assumes "fadd n r = Fin 0"
  shows "\<not> is_finite (fdiv (fsub n r) (fadd n r))"
proof -
  from assms obtain a b where "n = Fin a" "r = Fin b" "a + b = 0"
    by (cases n; cases r) auto
  then show ?thesis by (simp add: fsub_def)
qed

lemma normalized_in_range:
  assumes "0 \<le> p" and "0 \<le> q" and "0 < p + q"
  shows "fdiv (fsub (Fin p) (Fin q)) (fadd (Fin p) (Fin q)) = Fin ((p - q) / (p + q)) \<and>
         - 1 \<le> (p - q) / (p + q) \<and> (p - q) / (p + q) \<le> 1"
proof -
  have "- (p + q) \<le> p - q" "p - q \<le> p + q" using assms by simp_all
  with assms(3) have "- 1 \<le> (p - q) / (p + q)" "(p - q) / (p + q) \<le> 1"
    by (simp_all add: pos_le_divide_eq pos_divide_le_eq)
  with assms(3) show ?thesis by (simp add: fsub_def)
qed

lemma example_raster_wf: "wf_raster example_raster"
  by (simp add: wf_raster_def example_raster_def)

lemma example_raster_bands:
  "sel_band example_raster 3 =
     Inr \<lparr>da_y = [0, 30], da_x = [0, 30], da_values = [[Fin 1, Fin 0], [Fin 2, Fin 3]],
          da_chunked = False\<rparr>"
  "sel_band example_raster 4 =
     Inr \<lparr>da_y = [0, 30], da_x = [0, 30], da_values = [[Fin 3, Fin 0], [Fin 2, Fin 1]],
          da_chunked = False\<rparr>"
  "sel_band example_raster 5 =
     Inr \<lparr>da_y = [0, 30], da_x = [0, 30], da_values = [[Fin 5, Fin 4], [Fin 2, Fin 0]],
          da_chunked = False\<rparr>"
  by (simp_all add: sel_band_def example_raster_def)

subsection \<open>Laziness\<close>

lemma read_chunked_lazy: "read_chunked c n = Inr r \<Longrightarrow> rs_chunked r"
  by (auto simp: read_chunked_def bind_err_Inr split: option.splits)

lemma sel_band_chunked: "sel_band r k = Inr a \<Longrightarrow> da_chunked a = rs_chunked r"
  by (auto simp: sel_band_def split: option.splits)

lemma NDVI_1988_chunked: "NDVI_1988 r = Inr a \<Longrightarrow> da_chunked a = rs_chunked r"
  by (auto simp: NDVI_1988_def bind_err_Inr binop_def Let_def dest: sel_band_chunked)

lemma NDVI_2017_chunked: "NDVI_2017 r = Inr a \<Longrightarrow> da_chunked a = rs_chunked r"
  by (auto simp: NDVI_2017_def bind_err_Inr binop_def Let_def dest: sel_band_chunked)

lemma lazy_after_cell05:
  assumes "run_cells L 5 s0 = Inr s"
  shows "\<exists>a b. s ''NDVI_1988'' = Some (VArray a) \<and> da_chunked a \<and>
               s ''NDVI_2017'' = Some (VArray b) \<and> da_chunked b"
proof -
  from assms have "run (cell01 L @ cell02 L @ cell03 @ cell04 @ cell05) s0 = Inr s"
    by (simp add: run_cells_def notebook_def)
  then obtain m r5 r8 a b where
    "read_chunked m ''landsat_5_small'' = Inr r5" "read_chunked m ''landsat_8_small'' = Inr r8"
    "NDVI_1988 r5 = Inr a" "NDVI_2017 r8 = Inr b"
    "s ''NDVI_1988'' = Some (VArray a)" "s ''NDVI_2017'' = Some (VArray b)"
    by (auto simp: cells display_def bind_err_Inr get_Inr)
  then show ?thesis
    using read_chunked_lazy NDVI_1988_chunked NDVI_2017_chunked by blast
qed

lemma lazy_before_load:
  assumes "run_cells L 15 s0 = Inr s"
  shows "\<exists>a b. s ''NDVI_1988'' = Some (VArray a) \<and> da_chunked a \<and>
               s ''NDVI_2017'' = Some (VArray b) \<and> da_chunked b"
proof -
  from run_cells_frame [of 5 15 L s0 s] assms obtain m where
    m: "run_cells L 5 s0 = Inr m" and
    f: "\<forall>v. v \<notin> \<Union> (targets ` set (concat (drop 5 (take 15 (notebook L))))) \<longrightarrow> s v = m v"
    by auto
  have "s ''NDVI_1988'' = m ''NDVI_1988''"
    by (rule f [rule_format]) (simp add: notebook_def cells display_def plot_def)
  moreover have "s ''NDVI_2017'' = m ''NDVI_2017''"
    by (rule f [rule_format]) (simp add: notebook_def cells display_def plot_def)
  ultimately
  show ?thesis using lazy_after_cell05 [OF m] by simp
qed

lemma cell16_run:
  assumes "s ''NDVI_1988'' = Some (VArray a)" and "s ''NDVI_2017'' = Some (VArray b)"
  shows "run cell16 s =
           Inr (s(''NDVI_1988'' \<mapsto> VArray (load a), ''NDVI_2017'' \<mapsto> VArray (load b)))"
  using assms by (simp add: cell16_def get_bound)

lemma cell17_run:
  assumes "s ''NDVI_1988'' = Some (VArray a)" and "s ''NDVI_2017'' = Some (VArray b)"
    and "s ''x'' = Some (VCoords x)" and "s ''y'' = Some (VCoords y)"
  shows "run (cell17 L) s =
           bind_err (interp L b x y) (\<lambda>p. bind_err (interp L a x y) (\<lambda>q.
             Inr (s(''NDVI_2017_regridded'' \<mapsto> VArray p, ''NDVI_1988_regridded'' \<mapsto> VArray q))))"
proof (cases "interp L b x y")
  case (Inl e)
  with assms show ?thesis by (simp add: cell17_def regrid_def get_bound)
next
  case (Inr p)
  with assms show ?thesis
    by (cases "interp L a x y") (simp_all add: cell17_def regrid_def get_bound)
qed

lemma cell17_lazy:
  assumes "s ''NDVI_2017'' = Some (VArray b)" and "da_chunked b"
    and "s ''x'' = Some (VCoords x)" and "s ''y'' = Some (VCoords y)"
  shows "run (cell17 L) s = Inl NotImplementedError"
  using assms by (simp add: cell17_def regrid_def get_bound interp_def)

subsection \<open>Regridding and the dataset\<close>

lemma interp_Inr:
  assumes "interp L a x y = Inr r"
  shows "\<not> da_chunked a \<and> da_x r = x \<and> da_y r = y \<and> \<not> da_chunked r \<and>
         length (da_values r) = length y \<and>
         (\<forall>row \<in> set (da_values r). length row = length x)"
  using assms by (auto simp: interp_def bind_err_Inr split: if_splits)

lemma Dataset_same_grid:
  assumes "da_y a = da_y b" and "da_x a = da_x b"
  shows "Dataset [(n, a), (m, b)] = \<lparr>ds_y = da_y a, ds_x = da_x a, ds_vars = [(n, a), (m, b)]\<rparr>"
  using assms by (simp add: Dataset_def align_outer_def reindex_def)

lemma loaded_state:
  assumes "run_cells L 16 s0 = Inr s"
  shows "\<exists>a b x y. s ''NDVI_1988'' = Some (VArray a) \<and> \<not> da_chunked a \<and>
           s ''NDVI_2017'' = Some (VArray b) \<and> \<not> da_chunked b \<and>
           s ''x'' = Some (VCoords x) \<and> s ''y'' = Some (VCoords y)"
proof -
  from run_cells_prefix [OF assms, of 15] obtain m where m: "run_cells L 15 s0 = Inr m"
    by auto
  from lazy_before_load [OF m] obtain a b where
    ab: "m ''NDVI_1988'' = Some (VArray a)" "m ''NDVI_2017'' = Some (VArray b)" by blast
  from after_grid [OF m] obtain x y where
    xy: "m ''x'' = Some (VCoords x)" "m ''y'' = Some (VCoords y)" by blast
  have "run_cells L 16 s0 = run cell16 m"
    using run_cells_step [of 15 L s0] m by (simp add: notebook_def)
  with assms cell16_run [OF ab] have
    "s = m(''NDVI_1988'' \<mapsto> VArray (load a), ''NDVI_2017'' \<mapsto> VArray (load b))" by simp
  with xy have "s ''NDVI_1988'' = Some (VArray (load a)) \<and> \<not> da_chunked (load a) \<and>
           s ''NDVI_2017'' = Some (VArray (load b)) \<and> \<not> da_chunked (load b) \<and>
           s ''x'' = Some (VCoords x) \<and> s ''y'' = Some (VCoords y)"
    by (simp add: load_def)
  then show ?thesis by blast
qed

lemma cell18_run:
  assumes "s ''NDVI_1988_regridded'' = Some (VArray q)"
    and "s ''NDVI_2017_regridded'' = Some (VArray p)"
  shows "run cell18 s =
           Inr (s(''ds_regridded'' \<mapsto>
                    VDataset (Dataset [(''NDVI_1988'', q), (''NDVI_2017'', p)])))"
  using assms by (simp add: cell18_def display_def get_bound)

lemma regrid_state:
  assumes "run_cells L 17 s0 = Inr s"
  shows "\<exists>a b x y p q.
           s ''NDVI_1988'' = Some (VArray a) \<and> s ''NDVI_2017'' = Some (VArray b) \<and>
           s ''x'' = Some (VCoords x) \<and> s ''y'' = Some (VCoords y) \<and>
           interp L b x y = Inr p \<and> interp L a x y = Inr q \<and>
           s ''NDVI_2017_regridded'' = Some (VArray p) \<and>
           s ''NDVI_1988_regridded'' = Some (VArray q) \<and>
           run_cells L 18 s0 =
             Inr (s(''ds_regridded'' \<mapsto>
                       VDataset \<lparr>ds_y = y, ds_x = x,
                                 ds_vars = [(''NDVI_1988'', q), (''NDVI_2017'', p)]\<rparr>))"
proof -
  from run_cells_last [of 16 L s0 s] assms obtain m where
    m: "run_cells L 16 s0 = Inr m" "run (cell17 L) m = Inr s" by (auto simp: notebook_def)
  from loaded_state [OF m(1)] obtain a b x y where
    ab: "m ''NDVI_1988'' = Some (VArray a)" "m ''NDVI_2017'' = Some (VArray b)" and
    xy: "m ''x'' = Some (VCoords x)" "m ''y'' = Some (VCoords y)" by blast
  from m(2) cell17_run [OF ab xy, of L] obtain p q where
    pq: "interp L b x y = Inr p" "interp L a x y = Inr q" and
    s: "s = m(''NDVI_2017_regridded'' \<mapsto> VArray p, ''NDVI_1988_regridded'' \<mapsto> VArray q)"
    by (auto simp: bind_err_Inr)
  from interp_Inr [OF pq(1)] have p: "da_x p = x" "da_y p = y" by auto
  from interp_Inr [OF pq(2)] have q: "da_x q = x" "da_y q = y" by auto
  have v: "s ''NDVI_1988'' = Some (VArray a)" "s ''NDVI_2017'' = Some (VArray b)"
    "s ''x'' = Some (VCoords x)" "s ''y'' = Some (VCoords y)"
    "s ''NDVI_2017_regridded'' = Some (VArray p)" "s ''NDVI_1988_regridded'' = Some (VArray q)"
    using s ab xy by simp_all
  have "run_cells L 18 s0 = run cell18 s"
    using run_cells_step [of 17 L s0] assms by (simp add: notebook_def)
  also have "\<dots> = Inr (s(''ds_regridded'' \<mapsto>
                    VDataset (Dataset [(''NDVI_1988'', q), (''NDVI_2017'', p)])))"
    by (rule cell18_run) (fact v)+
  also have "Dataset [(''NDVI_1988'', q), (''NDVI_2017'', p)] =
      \<lparr>ds_y = y, ds_x = x, ds_vars = [(''NDVI_1988'', q), (''NDVI_2017'', p)]\<rparr>"
    using Dataset_same_grid [of q p] p q by simp
  finally show ?thesis using v pq by blast
qed

lemma diff_regridded_same_grid:
  assumes "da_x p = x" "da_y p = y" "da_x q = x" "da_y q = y"
  shows "diff_regridded \<lparr>ds_y = y, ds_x = x, ds_vars = [(''NDVI_1988'', q), (''NDVI_2017'', p)]\<rparr> =
           Inr \<lparr>da_y = y, da_x = x, da_values = map2 (map2 fsub) (da_values p) (da_values q),
                da_chunked = da_chunked p \<or> da_chunked q\<rparr>"
  using assms by (simp add: diff_regridded_def getitem_def binop_same_grid)

subsection \<open>Resampling\<close>

lemma cell22_run:
  assumes "s ''xmin'' = Some (VNum xmin)" and "s ''xmax'' = Some (VNum xmax)"
    and "s ''ymin'' = Some (VNum ymin)" and "s ''ymax'' = Some (VNum ymax)"
    and "s ''res'' = Some (VNum 200)"
  shows "run cell22 s =
           Inr (s(''res_1000'' \<mapsto> VNum 1000,
                  ''x_1000'' \<mapsto> VCoords (arange_values xmin xmax 200),
                  ''y_1000'' \<mapsto> VCoords (arange_values ymin ymax 200)))"
  using assms by (simp add: cell22_def np_arange_def arange_def get_bound)

lemma cell23_run:
  assumes "s ''diff_regridded'' = Some (VArray d)"
    and "s ''x_1000'' = Some (VCoords bx)" and "s ''x'' = Some (VCoords x)"
    and "s ''y_1000'' = Some (VCoords by)" and "s ''y'' = Some (VCoords y)"
    and "groupby_bins_mean L ''x'' d bx (butlast x) = Inr a1"
    and "groupby_bins_mean L ''y'' a1 by (butlast y) = Inr a2"
  shows "run (cell23 L) s = Inr (s(''diff_res_1000'' \<mapsto> VArray a2))"
  using assms by (simp add: cell23_def display_def get_bound)

lemma resample_state:
  assumes "run_cells L 21 s0 = Inr s"
  shows "\<exists>xc yc d.
           s ''x_center'' = Some (VNum xc) \<and> s ''y_center'' = Some (VNum yc) \<and>
           s ''xmin'' = Some (VNum (binary64 (xc - 15000))) \<and>
           s ''xmax'' = Some (VNum (binary64 (xc + 15000))) \<and>
           s ''ymin'' = Some (VNum (binary64 (yc - 15000))) \<and>
           s ''ymax'' = Some (VNum (binary64 (yc + 15000))) \<and>
           s ''res'' = Some (VNum 200) \<and>
           s ''x'' = Some (VCoords (arange_values (binary64 (xc - 15000))
                                      (binary64 (xc + 15000)) 200)) \<and>
           s ''y'' = Some (VCoords (arange_values (binary64 (yc - 15000))
                                      (binary64 (yc + 15000)) 200)) \<and>
           s ''diff_regridded'' = Some (VArray d)"
proof -
  from run_cells_frame [of 15 21 L s0 s] assms obtain m where
    m: "run_cells L 15 s0 = Inr m" and
    f: "\<forall>v. v \<notin> \<Union> (targets ` set (concat (drop 15 (take 21 (notebook L))))) \<longrightarrow> s v = m v"
    by auto
  have k: "s ''x_center'' = m ''x_center''" "s ''y_center'' = m ''y_center''"
    "s ''xmin'' = m ''xmin''" "s ''xmax'' = m ''xmax''" "s ''ymin'' = m ''ymin''"
    "s ''ymax'' = m ''ymax''" "s ''res'' = m ''res''" "s ''x'' = m ''x''" "s ''y'' = m ''y''"
    by (rule f [rule_format], simp add: notebook_def cells display_def plot_def)+
  from run_cells_last [of 20 L s0 s] assms obtain t where
    "run (cell21 L) t = Inr s" by (auto simp: notebook_def)
  then obtain d where d: "s ''diff_regridded'' = Some (VArray d)"
    by (auto simp: cell21_def bind_err_Inr get_Inr)
  from after_grid [OF m] k d show ?thesis by auto
qed

section \<open>The claims\<close>

text \<open>
  C1. The claim is that the resampling step bins the regridded difference with x and y
  bin edges spaced 1000 apart. The cell assigns \<open>res_1000 = 1e3\<close> and then builds the
  edges with \<open>res\<close>: whenever the notebook has run through the cell before, the next cell
  runs and binds \<open>x_1000\<close> and \<open>y_1000\<close> to \<open>np.arange(xmin, xmax, 200)\<close> and
  \<open>np.arange(ymin, ymax, 200)\<close>, the very coordinates \<open>x\<close> and \<open>y\<close> of the regridded
  arrays, and these edges, with the labels \<open>x[:-1]\<close> and \<open>y[:-1]\<close>, are what the binned
  group-by of the following cell is given. On an axis whose centre coordinate is a
  multiple of a power of two \<open>2^j\<close>, \<open>j \<le> 0\<close>, with
  \<open>(\<bar>centre\<bar> + buffer) / 2^j < 2^53\<close>, so that nothing is rounded, there are 150 edges
  and consecutive edges are exactly 200 apart. The theorem states what the code does; it
  is not the claim.
\<close>

theorem resample_bins_keep_regrid_resolution:
  assumes "run_cells L 21 s0 = Inr s"
  shows "\<exists>xc yc xmin xmax ymin ymax x y d s'.
           s ''x_center'' = Some (VNum xc) \<and> s ''y_center'' = Some (VNum yc) \<and>
           s ''xmin'' = Some (VNum xmin) \<and> s ''xmax'' = Some (VNum xmax) \<and>
           s ''ymin'' = Some (VNum ymin) \<and> s ''ymax'' = Some (VNum ymax) \<and>
           s ''x'' = Some (VCoords x) \<and> s ''y'' = Some (VCoords y) \<and>
           s ''diff_regridded'' = Some (VArray d) \<and>
           run_cells L 22 s0 = Inr s' \<and>
           s' ''res_1000'' = Some (VNum 1000) \<and>
           s' ''x_1000'' = Some (VCoords x) \<and> s' ''y_1000'' = Some (VCoords y) \<and>
           x = arange_values xmin xmax 200 \<and> y = arange_values ymin ymax 200 \<and>
           (\<forall>m j. xc = of_int m * 2 powi j \<and> j \<le> 0 \<and>
                   \<bar>m\<bar> + 15000 * 2 ^ nat (- j) < 2 ^ 53 \<longrightarrow>
              length x = 150 \<and> (\<forall>i. i + 1 < length x \<longrightarrow> x ! (i + 1) - x ! i = 200)) \<and>
           (\<forall>m j. yc = of_int m * 2 powi j \<and> j \<le> 0 \<and>
                   \<bar>m\<bar> + 15000 * 2 ^ nat (- j) < 2 ^ 53 \<longrightarrow>
              length y = 150 \<and> (\<forall>i. i + 1 < length y \<longrightarrow> y ! (i + 1) - y ! i = 200)) \<and>
           (\<forall>a1 a2. groupby_bins_mean L ''x'' d x (butlast x) = Inr a1 \<and>
                    groupby_bins_mean L ''y'' a1 y (butlast y) = Inr a2 \<longrightarrow>
              run_cells L 23 s0 = Inr (s'(''diff_res_1000'' \<mapsto> VArray a2)))"
proof -
  from resample_state [OF assms] obtain xc yc d where
    c: "s ''x_center'' = Some (VNum xc)" "s ''y_center'' = Some (VNum yc)" and
    b: "s ''xmin'' = Some (VNum (binary64 (xc - 15000)))"
       "s ''xmax'' = Some (VNum (binary64 (xc + 15000)))"
       "s ''ymin'' = Some (VNum (binary64 (yc - 15000)))"
       "s ''ymax'' = Some (VNum (binary64 (yc + 15000)))"
       "s ''res'' = Some (VNum 200)" and
    xy: "s ''x'' = Some (VCoords (arange_values (binary64 (xc - 15000))
                                   (binary64 (xc + 15000)) 200))"
        "s ''y'' = Some (VCoords (arange_values (binary64 (yc - 15000))
                                   (binary64 (yc + 15000)) 200))" and
    d: "s ''diff_regridded'' = Some (VArray d)"
    by (elim exE conjE) (rule that, assumption+)
  let ?x = "arange_values (binary64 (xc - 15000)) (binary64 (xc + 15000)) 200"
  let ?y = "arange_values (binary64 (yc - 15000)) (binary64 (yc + 15000)) 200"
  let ?s' = "s(''res_1000'' \<mapsto> VNum 1000, ''x_1000'' \<mapsto> VCoords ?x, ''y_1000'' \<mapsto> VCoords ?y)"
  have r: "run_cells L 22 s0 = Inr ?s'"
    using run_cells_step [of 21 L s0] assms cell22_run [OF b] by (simp add: notebook_def)
  have v: "?s' ''res_1000'' = Some (VNum 1000)" "?s' ''x_1000'' = Some (VCoords ?x)"
    "?s' ''y_1000'' = Some (VCoords ?y)" by simp_all
  have e: "\<forall>m j. z = of_int m * 2 powi j \<and> j \<le> 0 \<and>
                   \<bar>m\<bar> + 15000 * 2 ^ nat (- j) < 2 ^ 53 \<longrightarrow>
      length (arange_values (binary64 (z - 15000)) (binary64 (z + 15000)) 200) = 150 \<and>
      (\<forall>i. i + 1 < length (arange_values (binary64 (z - 15000)) (binary64 (z + 15000)) 200) \<longrightarrow>
         arange_values (binary64 (z - 15000)) (binary64 (z + 15000)) 200 ! (i + 1) -
         arange_values (binary64 (z - 15000)) (binary64 (z + 15000)) 200 ! i = 200)"
    for z :: real
  proof (intro allI impI, elim conjE)
    fix m j
    assume h: "z = of_int m * 2 powi j" "j \<le> 0" "\<bar>m\<bar> + 15000 * 2 ^ nat (- j) < 2 ^ 53"
    have "binary64 (z + of_int (- 15000)) = z + of_int (- 15000)"
      "binary64 (z + of_int 15000) = z + of_int 15000"
      by (rule binary64_shift [OF h], simp)+
    then have 1: "binary64 (z - 15000) = z - 15000" "binary64 (z + 15000) = z + 15000"
      by simp_all
    note g = regular_grid [of "z - 15000"]
    show "length (arange_values (binary64 (z - 15000)) (binary64 (z + 15000)) 200) = 150 \<and>
      (\<forall>i. i + 1 < length (arange_values (binary64 (z - 15000)) (binary64 (z + 15000)) 200) \<longrightarrow>
         arange_values (binary64 (z - 15000)) (binary64 (z + 15000)) 200 ! (i + 1) -
         arange_values (binary64 (z - 15000)) (binary64 (z + 15000)) 200 ! i = 200)"
      unfolding 1 arange_values_exact [OF h]
      by (intro conjI) (fact g)+
  qed
  have g: "\<forall>a1 a2. groupby_bins_mean L ''x'' d ?x (butlast ?x) = Inr a1 \<and>
                    groupby_bins_mean L ''y'' a1 ?y (butlast ?y) = Inr a2 \<longrightarrow>
              run_cells L 23 s0 = Inr (?s'(''diff_res_1000'' \<mapsto> VArray a2))"
  proof (intro allI impI, elim conjE)
    fix a1 a2
    assume g1: "groupby_bins_mean L ''x'' d ?x (butlast ?x) = Inr a1"
      and g2: "groupby_bins_mean L ''y'' a1 ?y (butlast ?y) = Inr a2"
    have "run (cell23 L) ?s' = Inr (?s'(''diff_res_1000'' \<mapsto> VArray a2))"
      by (rule cell23_run [OF _ _ _ _ _ g1 g2]) (simp_all add: d xy)
    then show "run_cells L 23 s0 = Inr (?s'(''diff_res_1000'' \<mapsto> VArray a2))"
      using run_cells_step [of 22 L s0] r by (simp add: notebook_def)
  qed
  show ?thesis
    apply (rule exI [of _ xc], rule exI [of _ yc])
    apply (rule exI [of _ "binary64 (xc - 15000)"], rule exI [of _ "binary64 (xc + 15000)"])
    apply (rule exI [of _ "binary64 (yc - 15000)"], rule exI [of _ "binary64 (yc + 15000)"])
    apply (rule exI [of _ ?x], rule exI [of _ ?y], rule exI [of _ d], rule exI [of _ ?s'])
    apply (intro conjI)
    apply (fact c b xy d r v e g refl)+
    done
qed

theorem resample_bins_keep_regrid_resolution_witness:
  "\<exists>s s' x. run_cells example_library 21 Map.empty = Inr s \<and>
      s ''x_center'' = Some (VNum 15000) \<and>
      run_cells example_library 22 Map.empty = Inr s' \<and>
      s' ''res_1000'' = Some (VNum 1000) \<and>
      s ''x'' = Some (VCoords x) \<and> s' ''x_1000'' = Some (VCoords x) \<and>
      length x = 150 \<and> x ! 1 - x ! 0 = 200 \<and> x ! 1 - x ! 0 \<noteq> 1000"
proof -
  from example_runs obtain t where t: "run_cells example_library 24 Map.empty = Inr t" ..
  from run_cells_prefix [OF t, of 21] obtain s where
    s: "run_cells example_library 21 Map.empty = Inr s" by auto
  from run_cells_prefix [OF t, of 12] obtain u where
    u: "run_cells example_library 12 Map.empty = Inr u" by auto
  from run_cells_frame [of 12 21 example_library Map.empty s] s u have
    "s ''x_center'' = u ''x_center''"
    by (auto simp: notebook_def cells display_def plot_def)
  with center_state [OF u] have k: "s ''x_center'' = Some (VNum 15000)"
    by (auto simp: example_library_def)
  from resample_bins_keep_regrid_resolution [OF s] obtain xc yc xmin xmax ymin ymax x y d s'
    where
    c: "s ''x_center'' = Some (VNum xc)"
       "s ''x'' = Some (VCoords x)"
       "run_cells example_library 22 Map.empty = Inr s'"
       "s' ''res_1000'' = Some (VNum 1000)"
       "s' ''x_1000'' = Some (VCoords x)" and
    x: "\<forall>m j. xc = of_int m * 2 powi j \<and> j \<le> 0 \<and>
                   \<bar>m\<bar> + 15000 * 2 ^ nat (- j) < 2 ^ 53 \<longrightarrow>
              length x = 150 \<and> (\<forall>i. i + 1 < length x \<longrightarrow> x ! (i + 1) - x ! i = 200)"
    by (elim exE conjE) (rule that, assumption+)
  from c(1) k have xc: "xc = 15000" by simp
  from x [rule_format, of 15000 0] have
    g: "length x = 150" "\<forall>i. i + 1 < length x \<longrightarrow> x ! (i + 1) - x ! i = 200"
    by (simp_all add: xc)
  from g have "x ! (0 + 1) - x ! 0 = 200" by simp
  then have e: "x ! 1 - x ! 0 = 200" by simp
  show ?thesis
    apply (rule exI [of _ s], rule exI [of _ s'], rule exI [of _ x])
    using s k c(2-5) g(1) e apply simp
    done
qed



text \<open>
  C3 (amended). The region of interest is an axis-aligned box around the transformed
  centre point, computed in binary64: whenever the notebook has run through the cell that
  transforms the centre point, the next cell runs and binds \<open>buffer = 1.5e4\<close> and the
  four bounds \<open>xmin\<close>, \<open>xmax\<close>, \<open>ymin\<close>, \<open>ymax\<close> to the roundings of
  \<open>x_center - buffer\<close>, \<open>x_center + buffer\<close>, \<open>y_center - buffer\<close>, \<open>y_center + buffer\<close>,
  each within a relative error of \<open>2^-53\<close> of the unrounded value; the corners are listed
  as (xmin,ymin), (xmin,ymax), (xmax,ymax), (xmax,ymin). The box is centred on the centre
  point with sides exactly \<open>2 * buffer\<close> long on an axis whose centre coordinate is a
  multiple of a power of two \<open>2^j\<close>, \<open>j \<le> 0\<close>, with
  \<open>(\<bar>centre\<bar> + buffer) / 2^j < 2^53\<close>, so that neither bound is rounded.
\<close>

theorem bounding_box_rounded:
  assumes "run_cells L 12 s0 = Inr s"
  shows "\<exists>c xc yc s' xmin xmax ymin ymax.
           s ''crs'' = Some (VCrs c) \<and>
           transform_point L c (binary64 (- 118.7081)) (binary64 38.6942) = Inr (xc, yc) \<and>
           s ''x_center'' = Some (VNum xc) \<and> s ''y_center'' = Some (VNum yc) \<and>
           run_cells L 13 s0 = Inr s' \<and>
           s' ''buffer'' = Some (VNum 15000) \<and>
           s' ''xmin'' = Some (VNum xmin) \<and> s' ''xmax'' = Some (VNum xmax) \<and>
           s' ''ymin'' = Some (VNum ymin) \<and> s' ''ymax'' = Some (VNum ymax) \<and>
           xmin = binary64 (xc - 15000) \<and> xmax = binary64 (xc + 15000) \<and>
           ymin = binary64 (yc - 15000) \<and> ymax = binary64 (yc + 15000) \<and>
           \<bar>xmin - (xc - 15000)\<bar> \<le> \<bar>xc - 15000\<bar> / 2 ^ 53 \<and>
           \<bar>xmax - (xc + 15000)\<bar> \<le> \<bar>xc + 15000\<bar> / 2 ^ 53 \<and>
           \<bar>ymin - (yc - 15000)\<bar> \<le> \<bar>yc - 15000\<bar> / 2 ^ 53 \<and>
           \<bar>ymax - (yc + 15000)\<bar> \<le> \<bar>yc + 15000\<bar> / 2 ^ 53 \<and>
           (\<forall>m j. xc = of_int m * 2 powi j \<and> j \<le> 0 \<and>
                   \<bar>m\<bar> + 15000 * 2 ^ nat (- j) < 2 ^ 53 \<longrightarrow>
              xmin = xc - 15000 \<and> xmax = xc + 15000 \<and>
              xmax - xmin = 2 * 15000 \<and> (xmin + xmax) / 2 = xc) \<and>
           (\<forall>m j. yc = of_int m * 2 powi j \<and> j \<le> 0 \<and>
                   \<bar>m\<bar> + 15000 * 2 ^ nat (- j) < 2 ^ 53 \<longrightarrow>
              ymin = yc - 15000 \<and> ymax = yc + 15000 \<and>
              ymax - ymin = 2 * 15000 \<and> (ymin + ymax) / 2 = yc) \<and>
           s' ''bounding_box'' =
             Some (VBox [[[xmin, ymin], [xmin, ymax], [xmax, ymax], [xmax, ymin]]])"
proof -
  from center_state [OF assms] obtain c xc yc where
    t: "s ''crs'' = Some (VCrs c)"
       "transform_point L c (binary64 (- 118.7081)) (binary64 38.6942) = Inr (xc, yc)" and
    c: "s ''x_center'' = Some (VNum xc)" "s ''y_center'' = Some (VNum yc)" by blast
  let ?xmin = "binary64 (xc - 15000)" and ?xmax = "binary64 (xc + 15000)"
  let ?ymin = "binary64 (yc - 15000)" and ?ymax = "binary64 (yc + 15000)"
  let ?s' = "s(''buffer'' \<mapsto> VNum 15000,
               ''xmin'' \<mapsto> VNum ?xmin, ''xmax'' \<mapsto> VNum ?xmax,
               ''ymin'' \<mapsto> VNum ?ymin, ''ymax'' \<mapsto> VNum ?ymax,
               ''bounding_box'' \<mapsto> VBox (bounding_box ?xmin ?xmax ?ymin ?ymax))"
  have "run_cells L 13 s0 = run cell13 s"
    using run_cells_step [of 12 L s0] assms by (simp add: notebook_def)
  then have r: "run_cells L 13 s0 = Inr ?s'"
    by (simp only: cell13_run [OF c])
  have v: "?s' ''buffer'' = Some (VNum 15000)"
    "?s' ''xmin'' = Some (VNum ?xmin)" "?s' ''xmax'' = Some (VNum ?xmax)"
    "?s' ''ymin'' = Some (VNum ?ymin)" "?s' ''ymax'' = Some (VNum ?ymax)"
    by simp_all
  have bb: "?s' ''bounding_box'' =
      Some (VBox [[[?xmin, ?ymin], [?xmin, ?ymax], [?xmax, ?ymax], [?xmax, ?ymin]]])"
    by (simp add: bounding_box_def)
  have e: "\<bar>binary64 (z - 15000) - (z - 15000)\<bar> \<le> \<bar>z - 15000\<bar> / 2 ^ 53"
    "\<bar>binary64 (z + 15000) - (z + 15000)\<bar> \<le> \<bar>z + 15000\<bar> / 2 ^ 53" for z :: real
    by (rule binary64_error)+
  have x: "\<forall>m j. z = of_int m * 2 powi j \<and> j \<le> 0 \<and>
                   \<bar>m\<bar> + 15000 * 2 ^ nat (- j) < 2 ^ 53 \<longrightarrow>
              binary64 (z - 15000) = z - 15000 \<and> binary64 (z + 15000) = z + 15000 \<and>
              binary64 (z + 15000) - binary64 (z - 15000) = 2 * 15000 \<and>
              (binary64 (z - 15000) + binary64 (z + 15000)) / 2 = z" for z :: real
  proof (intro allI impI, elim conjE)
    fix m j
    assume h: "z = of_int m * 2 powi j" "j \<le> 0" "\<bar>m\<bar> + 15000 * 2 ^ nat (- j) < 2 ^ 53"
    have "binary64 (z + of_int (- 15000)) = z + of_int (- 15000)"
      "binary64 (z + of_int 15000) = z + of_int 15000"
      by (rule binary64_shift [OF h], simp)+
    then have 1: "binary64 (z - 15000) = z - 15000" "binary64 (z + 15000) = z + 15000"
      by simp_all
    show "binary64 (z - 15000) = z - 15000 \<and> binary64 (z + 15000) = z + 15000 \<and>
          binary64 (z + 15000) - binary64 (z - 15000) = 2 * 15000 \<and>
          (binary64 (z - 15000) + binary64 (z + 15000)) / 2 = z"
      unfolding 1 by simp
  qed
  show ?thesis
    apply (rule exI [of _ c], rule exI [of _ xc], rule exI [of _ yc], rule exI [of _ ?s'])
    apply (rule exI [of _ ?xmin], rule exI [of _ ?xmax])
    apply (rule exI [of _ ?ymin], rule exI [of _ ?ymax])
    apply (intro conjI)
    apply (fact t c r v bb e x refl)+
    done
qed

theorem bounding_box_rounded_witness:
  "\<exists>s s'. run_cells example_library 12 Map.empty = Inr s \<and>
      s ''x_center'' = Some (VNum 15000) \<and> s ''y_center'' = Some (VNum 15000) \<and>
      run_cells example_library 13 Map.empty = Inr s' \<and>
      s' ''xmin'' = Some (VNum 0) \<and> s' ''xmax'' = Some (VNum 30000) \<and>
      s' ''ymin'' = Some (VNum 0) \<and> s' ''ymax'' = Some (VNum 30000) \<and>
      s' ''bounding_box'' = Some (VBox [[[0, 0], [0, 30000], [30000, 30000], [30000, 0]]])"
proof -
  from example_runs obtain t where "run_cells example_library 24 Map.empty = Inr t" ..
  from run_cells_prefix [OF this, of 12] obtain s where
    s: "run_cells example_library 12 Map.empty = Inr s" by auto
  from bounding_box_rounded [OF s] obtain c xc yc s' xmin xmax ymin ymax where
    p: "transform_point example_library c (binary64 (- 118.7081)) (binary64 38.6942) =
          Inr (xc, yc)"
       "s ''x_center'' = Some (VNum xc)" "s ''y_center'' = Some (VNum yc)"
       "run_cells example_library 13 Map.empty = Inr s'"
       "s' ''xmin'' = Some (VNum xmin)" "s' ''xmax'' = Some (VNum xmax)"
       "s' ''ymin'' = Some (VNum ymin)" "s' ''ymax'' = Some (VNum ymax)"
       "s' ''bounding_box'' =
             Some (VBox [[[xmin, ymin], [xmin, ymax], [xmax, ymax], [xmax, ymin]]])" and
    x: "\<forall>m j. xc = of_int m * 2 powi j \<and> j \<le> 0 \<and>
                   \<bar>m\<bar> + 15000 * 2 ^ nat (- j) < 2 ^ 53 \<longrightarrow>
              xmin = xc - 15000 \<and> xmax = xc + 15000 \<and>
              xmax - xmin = 2 * 15000 \<and> (xmin + xmax) / 2 = xc" and
    y: "\<forall>m j. yc = of_int m * 2 powi j \<and> j \<le> 0 \<and>
                   \<bar>m\<bar> + 15000 * 2 ^ nat (- j) < 2 ^ 53 \<longrightarrow>
              ymin = yc - 15000 \<and> ymax = yc + 15000 \<and>
              ymax - ymin = 2 * 15000 \<and> (ymin + ymax) / 2 = yc"
    by (elim exE conjE) (rule that, assumption+)
  from p(1) have c: "xc = 15000" "yc = 15000" by (simp_all add: example_library_def)
  from x [rule_format, of 15000 0] have bx: "xmin = 0" "xmax = 30000"
    by (simp_all add: c)
  from y [rule_format, of 15000 0] have cy: "ymin = 0" "ymax = 30000"
    by (simp_all add: c)
  show ?thesis
    apply (rule exI [of _ s], rule exI [of _ s'])
    using s p(2-9) c bx cy apply simp
    done
qed

text \<open>
  At a centre point transformed to \<open>x_center = y_center = 255069.0257394217\<close>, the
  binary64 number \<open>8764104990187187 / 2^35\<close>, the upper bound \<open>x_center + buffer\<close> is
  rounded: the side of the box is not \<open>2 * buffer\<close> and the box is not centred on the
  centre point.
\<close>

theorem bounding_box_not_square:
  "\<exists>s s' xc xmin xmax.
      run_cells rounding_library 12 Map.empty = Inr s \<and>
      s ''x_center'' = Some (VNum xc) \<and>
      run_cells rounding_library 13 Map.empty = Inr s' \<and>
      s' ''buffer'' = Some (VNum 15000) \<and>
      s' ''xmin'' = Some (VNum xmin) \<and> s' ''xmax'' = Some (VNum xmax) \<and>
      xmin = xc - 15000 \<and> xmax \<noteq> xc + 15000 \<and>
      xmax - xmin \<noteq> 2 * 15000 \<and> (xmin + xmax) / 2 \<noteq> xc"
proof -
  from rounding_runs obtain t where "run_cells rounding_library 15 Map.empty = Inr t" ..
  from run_cells_prefix [OF this, of 12] run_cells_prefix [OF this, of 13] obtain s s' where
    s: "run_cells rounding_library 12 Map.empty = Inr s"
       "run_cells rounding_library 13 Map.empty = Inr s'" by auto
  have tp: "transform_point rounding_library c lon lat =
      Inr (8764104990187187 / 34359738368, 8764104990187187 / 34359738368)" for c lon lat
    by (simp add: rounding_library_def)
  from center_state [OF s(1)] obtain c xc yc where
    t: "transform_point rounding_library c (binary64 (- 118.7081)) (binary64 38.6942) =
          Inr (xc, yc)" and
    k: "s ''x_center'' = Some (VNum xc)" "s ''y_center'' = Some (VNum yc)" by blast
  from t [unfolded tp] have "8764104990187187 / 34359738368 = xc \<and>
    8764104990187187 / 34359738368 = yc" by blast
  then have e: "8764104990187187 / 34359738368 = xc" "8764104990187187 / 34359738368 = yc"
    by (rule conjunct1, rule conjunct2)
  note c = k [folded e]
  have "run_cells rounding_library 13 Map.empty = run cell13 s"
    using run_cells_step [of 12 rounding_library Map.empty] s(1) by (simp add: notebook_def)
  with s(2) have "s' = s(''buffer'' \<mapsto> VNum 15000,
      ''xmin'' \<mapsto> VNum (8248708914667187 / 34359738368),
      ''xmax'' \<mapsto> VNum (2319875266426797 / 8589934592),
      ''ymin'' \<mapsto> VNum (8248708914667187 / 34359738368),
      ''ymax'' \<mapsto> VNum (2319875266426797 / 8589934592),
      ''bounding_box'' \<mapsto>
         VBox (bounding_box (8248708914667187 / 34359738368) (2319875266426797 / 8589934592)
                 (8248708914667187 / 34359738368) (2319875266426797 / 8589934592)))"
    unfolding cell13_run [OF c] rounding_bounds by (simp only: sum.inject)
  then have b: "s' ''buffer'' = Some (VNum 15000)"
       "s' ''xmin'' = Some (VNum (8248708914667187 / 34359738368))"
       "s' ''xmax'' = Some (VNum (2319875266426797 / 8589934592))"
    by simp_all
  show ?thesis
    apply (rule exI [of _ s], rule exI [of _ s'])
    apply (rule exI [of _ "8764104990187187 / 34359738368"])
    apply (rule exI [of _ "8248708914667187 / 34359738368"])
    apply (rule exI [of _ "2319875266426797 / 8589934592"])
    using s c(1) b apply simp
    done
qed

text \<open>
  C4 (amended). The grid built for the region is what \<open>np.arange\<close> computes in binary64:
  whenever the notebook has run through the cell that shows the bounding box, the next
  cell runs and binds \<open>res = 200\<close>, \<open>x = np.arange(xmin, xmax, res)\<close> and
  \<open>y = np.arange(ymin, ymax, res)\<close>, and a nonempty axis starts at \<open>xmin\<close> respectively
  \<open>ymin\<close>. The grid is regular on an axis whose centre coordinate is a multiple of a power
  of two \<open>2^j\<close>, \<open>j \<le> 0\<close>, with \<open>(\<bar>centre\<bar> + buffer) / 2^j < 2^53\<close>, so that no bound and
  no grid point is rounded: the axis then has 150 coordinates, consecutive coordinates
  differ by exactly 200, and every coordinate lies in \<open>[xmin, xmax)\<close> respectively
  \<open>[ymin, ymax)\<close>.
\<close>

theorem grid_regular_when_exact:
  assumes "run_cells L 14 s0 = Inr s"
  shows "\<exists>xc yc xmin xmax ymin ymax s' x y.
           s ''x_center'' = Some (VNum xc) \<and> s ''y_center'' = Some (VNum yc) \<and>
           s ''xmin'' = Some (VNum xmin) \<and> s ''xmax'' = Some (VNum xmax) \<and>
           s ''ymin'' = Some (VNum ymin) \<and> s ''ymax'' = Some (VNum ymax) \<and>
           run_cells L 15 s0 = Inr s' \<and>
           s' ''res'' = Some (VNum 200) \<and>
           s' ''x'' = Some (VCoords x) \<and> s' ''y'' = Some (VCoords y) \<and>
           x = arange_values xmin xmax 200 \<and> y = arange_values ymin ymax 200 \<and>
           (x \<noteq> [] \<longrightarrow> x ! 0 = xmin) \<and> (y \<noteq> [] \<longrightarrow> y ! 0 = ymin) \<and>
           (\<forall>m j. xc = of_int m * 2 powi j \<and> j \<le> 0 \<and>
                   \<bar>m\<bar> + 15000 * 2 ^ nat (- j) < 2 ^ 53 \<longrightarrow>
              length x = 150 \<and> x ! 0 = xmin \<and>
              (\<forall>i. i + 1 < length x \<longrightarrow> x ! (i + 1) - x ! i = 200) \<and>
              (\<forall>v \<in> set x. xmin \<le> v \<and> v < xmax)) \<and>
           (\<forall>m j. yc = of_int m * 2 powi j \<and> j \<le> 0 \<and>
                   \<bar>m\<bar> + 15000 * 2 ^ nat (- j) < 2 ^ 53 \<longrightarrow>
              length y = 150 \<and> y ! 0 = ymin \<and>
              (\<forall>i. i + 1 < length y \<longrightarrow> y ! (i + 1) - y ! i = 200) \<and>
              (\<forall>v \<in> set y. ymin \<le> v \<and> v < ymax))"
proof -
  from grid_state [OF assms] obtain c xc yc where
    c: "s ''x_center'' = Some (VNum xc)" "s ''y_center'' = Some (VNum yc)" and
    b: "s ''xmin'' = Some (VNum (binary64 (xc - 15000)))"
       "s ''xmax'' = Some (VNum (binary64 (xc + 15000)))"
       "s ''ymin'' = Some (VNum (binary64 (yc - 15000)))"
       "s ''ymax'' = Some (VNum (binary64 (yc + 15000)))"
    and r: "run_cells L 15 s0 =
             Inr (s(''res'' \<mapsto> VNum 200,
                    ''x'' \<mapsto> VCoords (arange_values (binary64 (xc - 15000))
                                        (binary64 (xc + 15000)) 200),
                    ''y'' \<mapsto> VCoords (arange_values (binary64 (yc - 15000))
                                        (binary64 (yc + 15000)) 200)))"
    by (elim exE conjE) (rule that, assumption+)
  let ?x = "arange_values (binary64 (xc - 15000)) (binary64 (xc + 15000)) 200"
  let ?y = "arange_values (binary64 (yc - 15000)) (binary64 (yc + 15000)) 200"
  let ?s' = "s(''res'' \<mapsto> VNum 200, ''x'' \<mapsto> VCoords ?x, ''y'' \<mapsto> VCoords ?y)"
  have v: "?s' ''res'' = Some (VNum 200)" "?s' ''x'' = Some (VCoords ?x)"
    "?s' ''y'' = Some (VCoords ?y)" by simp_all
  have f: "?x \<noteq> [] \<longrightarrow> ?x ! 0 = binary64 (xc - 15000)"
    "?y \<noteq> [] \<longrightarrow> ?y ! 0 = binary64 (yc - 15000)"
    by (rule impI, rule arange_values_first, assumption)+
  have e: "\<forall>m j. z = of_int m * 2 powi j \<and> j \<le> 0 \<and>
                   \<bar>m\<bar> + 15000 * 2 ^ nat (- j) < 2 ^ 53 \<longrightarrow>
      length (arange_values (binary64 (z - 15000)) (binary64 (z + 15000)) 200) = 150 \<and>
      arange_values (binary64 (z - 15000)) (binary64 (z + 15000)) 200 ! 0 =
        binary64 (z - 15000) \<and>
      (\<forall>i. i + 1 < length (arange_values (binary64 (z - 15000)) (binary64 (z + 15000)) 200) \<longrightarrow>
         arange_values (binary64 (z - 15000)) (binary64 (z + 15000)) 200 ! (i + 1) -
         arange_values (binary64 (z - 15000)) (binary64 (z + 15000)) 200 ! i = 200) \<and>
      (\<forall>v \<in> set (arange_values (binary64 (z - 15000)) (binary64 (z + 15000)) 200).
         binary64 (z - 15000) \<le> v \<and> v < binary64 (z + 15000))" for z :: real
  proof (intro allI impI, elim conjE)
    fix m j
    assume h: "z = of_int m * 2 powi j" "j \<le> 0" "\<bar>m\<bar> + 15000 * 2 ^ nat (- j) < 2 ^ 53"
    let ?g = "map (\<lambda>i. z - 15000 + real i * 200) [0..<150]"
    have "binary64 (z + of_int (- 15000)) = z + of_int (- 15000)"
      "binary64 (z + of_int 15000) = z + of_int 15000"
      by (rule binary64_shift [OF h], simp)+
    then have 1: "binary64 (z - 15000) = z - 15000" "binary64 (z + 15000) = z + 15000"
      by simp_all
    have 2: "z - 15000 + 30000 = z + 15000" by simp
    note g = regular_grid [of "z - 15000", unfolded 2]
    show "length (arange_values (binary64 (z - 15000)) (binary64 (z + 15000)) 200) = 150 \<and>
      arange_values (binary64 (z - 15000)) (binary64 (z + 15000)) 200 ! 0 =
        binary64 (z - 15000) \<and>
      (\<forall>i. i + 1 < length (arange_values (binary64 (z - 15000)) (binary64 (z + 15000)) 200) \<longrightarrow>
         arange_values (binary64 (z - 15000)) (binary64 (z + 15000)) 200 ! (i + 1) -
         arange_values (binary64 (z - 15000)) (binary64 (z + 15000)) 200 ! i = 200) \<and>
      (\<forall>v \<in> set (arange_values (binary64 (z - 15000)) (binary64 (z + 15000)) 200).
         binary64 (z - 15000) \<le> v \<and> v < binary64 (z + 15000))"
      unfolding 1 arange_values_exact [OF h]
      by (intro conjI) (fact g)+
  qed
  show ?thesis
    apply (rule exI [of _ xc], rule exI [of _ yc])
    apply (rule exI [of _ "binary64 (xc - 15000)"], rule exI [of _ "binary64 (xc + 15000)"])
    apply (rule exI [of _ "binary64 (yc - 15000)"], rule exI [of _ "binary64 (yc + 15000)"])
    apply (rule exI [of _ ?s'], rule exI [of _ ?x], rule exI [of _ ?y])
    apply (intro conjI)
    apply (fact c b r v f e refl)+
    done
qed

theorem grid_regular_when_exact_witness:
  "\<exists>s s' x. run_cells example_library 14 Map.empty = Inr s \<and>
      s ''x_center'' = Some (VNum 15000) \<and>
      s ''xmin'' = Some (VNum 0) \<and> s ''xmax'' = Some (VNum 30000) \<and>
      run_cells example_library 15 Map.empty = Inr s' \<and>
      s' ''x'' = Some (VCoords x) \<and> length x = 150 \<and> x ! 0 = 0 \<and> x ! 1 - x ! 0 = 200 \<and>
      0 \<le> x ! 149 \<and> x ! 149 < 30000"
proof -
  from example_runs obtain t where "run_cells example_library 24 Map.empty = Inr t" ..
  from run_cells_prefix [OF this, of 14] obtain s where
    s: "run_cells example_library 14 Map.empty = Inr s" by auto
  from grid_state [OF s] have
    b: "s ''x_center'' = Some (VNum 15000)"
       "s ''xmin'' = Some (VNum (binary64 (15000 - 15000)))"
       "s ''xmax'' = Some (VNum (binary64 (15000 + 15000)))"
    by (auto simp: example_library_def)
  have "binary64 (of_int 0) = of_int 0" "binary64 (of_int 30000) = of_int 30000"
    by (rule binary64_of_int, simp)+
  then have n: "binary64 (15000 - 15000) = 0" "binary64 (15000 + 15000) = 30000"
    by simp_all
  note b = b [unfolded n]
  from grid_regular_when_exact [OF s] obtain xc yc xmin xmax ymin ymax s' x y where
    p: "s ''x_center'' = Some (VNum xc)"
       "s ''xmin'' = Some (VNum xmin)" "s ''xmax'' = Some (VNum xmax)"
       "run_cells example_library 15 Map.empty = Inr s'"
       "s' ''x'' = Some (VCoords x)" and
    x: "\<forall>m j. xc = of_int m * 2 powi j \<and> j \<le> 0 \<and>
                   \<bar>m\<bar> + 15000 * 2 ^ nat (- j) < 2 ^ 53 \<longrightarrow>
              length x = 150 \<and> x ! 0 = xmin \<and>
              (\<forall>i. i + 1 < length x \<longrightarrow> x ! (i + 1) - x ! i = 200) \<and>
              (\<forall>v \<in> set x. xmin \<le> v \<and> v < xmax)"
    by (elim exE conjE) (rule that, assumption+)
  from p(1-3) b have c: "xc = 15000" "xmin = 0" "xmax = 30000" by simp_all
  from x [rule_format, of 15000 0] have
    g: "length x = 150" "x ! 0 = 0"
       "\<forall>i. i + 1 < length x \<longrightarrow> x ! (i + 1) - x ! i = 200"
       "\<forall>v \<in> set x. 0 \<le> v \<and> v < 30000"
    by (simp_all add: c)
  from g(1,3) have "x ! (0 + 1) - x ! 0 = 200" by simp
  then have 1: "x ! 1 - x ! 0 = 200" by simp
  from g(1) have "x ! 149 \<in> set x" by simp
  with g(4) have 2: "0 \<le> x ! 149" "x ! 149 < 30000" by simp_all
  show ?thesis
    apply (rule exI [of _ s], rule exI [of _ s'], rule exI [of _ x])
    using s b p(4,5) g(1,2) 1 2 apply simp
    done
qed

text \<open>
  At a centre point transformed to \<open>x_center = y_center = 255069.0257394217\<close>, the
  binary64 number \<open>8764104990187187 / 2^35\<close>, the bound \<open>xmax\<close> is rounded up and the
  grid has 151 coordinates on each axis: the last one is \<open>xmax\<close> itself, and the
  coordinates of index 110 and 111 are not 200 apart.
\<close>

theorem grid_not_regular:
  "\<exists>s s' xmin xmax x.
      run_cells rounding_library 14 Map.empty = Inr s \<and>
      s ''xmin'' = Some (VNum xmin) \<and> s ''xmax'' = Some (VNum xmax) \<and>
      run_cells rounding_library 15 Map.empty = Inr s' \<and>
      s' ''x'' = Some (VCoords x) \<and> x = arange_values xmin xmax 200 \<and>
      length x = 151 \<and> x ! 150 = xmax \<and> \<not> x ! 150 < xmax \<and>
      x ! 111 - x ! 110 = 200 + 1 / 34359738368 \<and> x ! 111 - x ! 110 \<noteq> 200"
proof -
  let ?A = "8248708914667187 / 34359738368 :: real"
  let ?B = "2319875266426797 / 8589934592 :: real"
  from rounding_runs obtain t where t: "run_cells rounding_library 15 Map.empty = Inr t" ..
  from run_cells_prefix [OF this, of 14] obtain s where
    s: "run_cells rounding_library 14 Map.empty = Inr s" by auto
  have tp: "transform_point rounding_library c lon lat =
      Inr (8764104990187187 / 34359738368, 8764104990187187 / 34359738368)" for c lon lat
    by (simp add: rounding_library_def)
  from grid_state [OF s] obtain c xc yc where
    tr: "transform_point rounding_library c (binary64 (- 118.7081)) (binary64 38.6942) =
          Inr (xc, yc)" and
    b: "s ''xmin'' = Some (VNum (binary64 (xc - 15000)))"
       "s ''xmax'' = Some (VNum (binary64 (xc + 15000)))" and
    r: "run_cells rounding_library 15 Map.empty =
             Inr (s(''res'' \<mapsto> VNum 200,
                    ''x'' \<mapsto> VCoords (arange_values (binary64 (xc - 15000))
                                        (binary64 (xc + 15000)) 200),
                    ''y'' \<mapsto> VCoords (arange_values (binary64 (yc - 15000))
                                        (binary64 (yc + 15000)) 200)))"
    by (elim exE conjE) (rule that, assumption+)
  from tr [unfolded tp] have "8764104990187187 / 34359738368 = xc \<and>
    8764104990187187 / 34359738368 = yc" by blast
  then have e: "8764104990187187 / 34359738368 = xc" "8764104990187187 / 34359738368 = yc"
    by (rule conjunct1, rule conjunct2)
  note b = b [folded e, unfolded rounding_bounds]
  note r = r [folded e, unfolded rounding_bounds]
  let ?s' = "s(''res'' \<mapsto> VNum 200, ''x'' \<mapsto> VCoords (arange_values ?A ?B 200),
               ''y'' \<mapsto> VCoords (arange_values ?A ?B 200))"
  have v: "?s' ''x'' = Some (VCoords (arange_values ?A ?B 200))" by simp
  note g = rounding_grid
  have n: "\<not> arange_values ?A ?B 200 ! 150 < ?B"
    "arange_values ?A ?B 200 ! 111 - arange_values ?A ?B 200 ! 110 \<noteq> 200"
    unfolding g by simp_all
  show ?thesis
    apply (rule exI [of _ s], rule exI [of _ ?s'], rule exI [of _ ?A], rule exI [of _ ?B])
    apply (rule exI [of _ "arange_values ?A ?B 200"])
    apply (intro conjI)
    apply (fact s b r v g n refl)+
    done
qed

text \<open>
  C5. Both indices are interpolated onto the same grid. Whenever the notebook has run
  through the interpolation cell, its two \<^verbatim>\<open>interp\<close> calls were given the same \<open>x\<close> and
  \<open>y\<close>; the two regridded arrays have these as their coordinates and the same shape; the
  next cell runs and builds the dataset, which holds both arrays under these
  coordinates; and the difference of the dataset's two arrays has the same coordinates
  and shape, with a value at every cell of the grid.
\<close>

theorem regridded_share_grid:
  assumes "run_cells L 17 s0 = Inr s"
  shows "\<exists>a b x y p q s' ds d.
           s ''NDVI_1988'' = Some (VArray a) \<and> s ''NDVI_2017'' = Some (VArray b) \<and>
           s ''x'' = Some (VCoords x) \<and> s ''y'' = Some (VCoords y) \<and>
           interp L b x y = Inr p \<and> interp L a x y = Inr q \<and>
           s ''NDVI_2017_regridded'' = Some (VArray p) \<and>
           s ''NDVI_1988_regridded'' = Some (VArray q) \<and>
           da_x p = x \<and> da_y p = y \<and> da_x q = x \<and> da_y q = y \<and>
           length (da_values p) = length y \<and> length (da_values q) = length y \<and>
           (\<forall>row \<in> set (da_values p). length row = length x) \<and>
           (\<forall>row \<in> set (da_values q). length row = length x) \<and>
           run_cells L 18 s0 = Inr s' \<and>
           s' ''ds_regridded'' = Some (VDataset ds) \<and>
           ds_x ds = x \<and> ds_y ds = y \<and>
           ds_vars ds = [(''NDVI_1988'', q), (''NDVI_2017'', p)] \<and>
           diff_regridded ds = Inr d \<and> da_x d = x \<and> da_y d = y \<and>
           length (da_values d) = length y \<and>
           (\<forall>i < length y. length (da_values d ! i) = length x \<and>
              (\<forall>j < length x.
                 da_values d ! i ! j = fsub (da_values p ! i ! j) (da_values q ! i ! j)))"
proof -
  from regrid_state [OF assms] obtain a b x y p q where
    ab: "s ''NDVI_1988'' = Some (VArray a)" "s ''NDVI_2017'' = Some (VArray b)" and
    xy: "s ''x'' = Some (VCoords x)" "s ''y'' = Some (VCoords y)" and
    pq: "interp L b x y = Inr p" "interp L a x y = Inr q" and
    v: "s ''NDVI_2017_regridded'' = Some (VArray p)"
       "s ''NDVI_1988_regridded'' = Some (VArray q)" and
    r: "run_cells L 18 s0 =
             Inr (s(''ds_regridded'' \<mapsto>
                       VDataset \<lparr>ds_y = y, ds_x = x,
                                 ds_vars = [(''NDVI_1988'', q), (''NDVI_2017'', p)]\<rparr>))"
    by blast
  let ?ds = "\<lparr>ds_y = y, ds_x = x, ds_vars = [(''NDVI_1988'', q), (''NDVI_2017'', p)]\<rparr>"
  let ?s' = "s(''ds_regridded'' \<mapsto> VDataset ?ds)"
  let ?d = "\<lparr>da_y = y, da_x = x, da_values = map2 (map2 fsub) (da_values p) (da_values q),
             da_chunked = da_chunked p \<or> da_chunked q\<rparr>"
  from interp_Inr [OF pq(1)] have p: "da_x p = x" "da_y p = y"
      "length (da_values p) = length y" "\<forall>row \<in> set (da_values p). length row = length x"
    by simp_all
  from interp_Inr [OF pq(2)] have q: "da_x q = x" "da_y q = y"
      "length (da_values q) = length y" "\<forall>row \<in> set (da_values q). length row = length x"
    by simp_all
  have w: "?s' ''ds_regridded'' = Some (VDataset ?ds)" by simp
  have ds: "ds_x ?ds = x" "ds_y ?ds = y" "ds_vars ?ds = [(''NDVI_1988'', q), (''NDVI_2017'', p)]"
    by simp_all
  have d: "diff_regridded ?ds = Inr ?d"
    by (rule diff_regridded_same_grid) (fact p q)+
  have dc: "da_x ?d = x" "da_y ?d = y" by simp_all
  have dl: "length (da_values ?d) = length y" using p(3) q(3) by simp
  have dv: "\<forall>i < length y. length (da_values ?d ! i) = length x \<and>
              (\<forall>j < length x.
                 da_values ?d ! i ! j = fsub (da_values p ! i ! j) (da_values q ! i ! j))"
    using p(3,4) q(3,4) by simp
  show ?thesis
    apply (rule exI [of _ a], rule exI [of _ b], rule exI [of _ x], rule exI [of _ y],
        rule exI [of _ p], rule exI [of _ q], rule exI [of _ ?s'], rule exI [of _ ?ds],
        rule exI [of _ ?d])
    apply (intro conjI)
    apply (fact ab xy pq v r w p q ds d dc dl dv)+
    done
qed

theorem regridded_share_grid_witness:
  "\<exists>s s' p q ds d. run_cells example_library 17 Map.empty = Inr s \<and>
      run_cells example_library 18 Map.empty = Inr s' \<and>
      s ''NDVI_2017_regridded'' = Some (VArray p) \<and>
      s ''NDVI_1988_regridded'' = Some (VArray q) \<and>
      da_x p = da_x q \<and> da_y p = da_y q \<and>
      length (da_values p) = length (da_values q) \<and>
      s' ''ds_regridded'' = Some (VDataset ds) \<and> ds_x ds = da_x p \<and> ds_y ds = da_y p \<and>
      diff_regridded ds = Inr d \<and> da_x d = da_x p \<and> da_y d = da_y p"
proof -
  from example_runs obtain t where "run_cells example_library 24 Map.empty = Inr t" ..
  from run_cells_prefix [OF this, of 17] obtain s where
    s: "run_cells example_library 17 Map.empty = Inr s" by auto
  from regridded_share_grid [OF s] obtain x y p q s' ds d where
    c: "s ''NDVI_2017_regridded'' = Some (VArray p)"
       "s ''NDVI_1988_regridded'' = Some (VArray q)"
       "da_x p = x" "da_y p = y" "da_x q = x" "da_y q = y"
       "length (da_values p) = length y" "length (da_values q) = length y"
       "run_cells example_library 18 Map.empty = Inr s'"
       "s' ''ds_regridded'' = Some (VDataset ds)" "ds_x ds = x" "ds_y ds = y"
       "diff_regridded ds = Inr d" "da_x d = x" "da_y d = y"
    by (elim exE conjE) (rule that, assumption+)
  show ?thesis
    apply (rule exI [of _ s], rule exI [of _ s'], rule exI [of _ p], rule exI [of _ q],
        rule exI [of _ ds], rule exI [of _ d])
    using s c apply simp
    done
qed

text \<open>
  C8. The lazy arrays are materialized by the explicit \<^verbatim>\<open>load\<close> calls, and before the
  interpolation: whenever the notebook has run through the fifteen cells before the load
  cell, both indices are still lazy (interpolating them there would be refused); the load
  cell then runs and makes both arrays eager without changing their values or any other
  variable; and the interpolation cell, which runs next and from that state, applies
  \<^verbatim>\<open>interp\<close> to the two loaded arrays.
\<close>

theorem load_precedes_interp:
  assumes "run_cells L 15 s0 = Inr s"
  shows "\<exists>a b x y s'.
           s ''NDVI_1988'' = Some (VArray a) \<and> da_chunked a \<and>
           s ''NDVI_2017'' = Some (VArray b) \<and> da_chunked b \<and>
           s ''x'' = Some (VCoords x) \<and> s ''y'' = Some (VCoords y) \<and>
           run (cell17 L) s = Inl NotImplementedError \<and>
           run_cells L 16 s0 = Inr s' \<and>
           s' ''NDVI_1988'' = Some (VArray (load a)) \<and> \<not> da_chunked (load a) \<and>
           s' ''NDVI_2017'' = Some (VArray (load b)) \<and> \<not> da_chunked (load b) \<and>
           da_values (load a) = da_values a \<and> da_values (load b) = da_values b \<and>
           (\<forall>n. n \<noteq> ''NDVI_1988'' \<and> n \<noteq> ''NDVI_2017'' \<longrightarrow> s' n = s n) \<and>
           run_cells L 17 s0 =
             bind_err (interp L (load b) x y) (\<lambda>p. bind_err (interp L (load a) x y) (\<lambda>q.
               Inr (s'(''NDVI_2017_regridded'' \<mapsto> VArray p,
                       ''NDVI_1988_regridded'' \<mapsto> VArray q))))"
proof -
  from lazy_before_load [OF assms] obtain a b where
    ab: "s ''NDVI_1988'' = Some (VArray a)" "da_chunked a"
        "s ''NDVI_2017'' = Some (VArray b)" "da_chunked b" by blast
  from after_grid [OF assms] obtain x y where
    xy: "s ''x'' = Some (VCoords x)" "s ''y'' = Some (VCoords y)" by blast
  let ?s' = "s(''NDVI_1988'' \<mapsto> VArray (load a), ''NDVI_2017'' \<mapsto> VArray (load b))"
  have l: "run_cells L 16 s0 = Inr ?s'"
    using run_cells_step [of 15 L s0] assms cell16_run [OF ab(1,3)]
    by (simp add: notebook_def)
  have "run_cells L 17 s0 = run (cell17 L) ?s'"
    using run_cells_step [of 16 L s0] l by (simp add: notebook_def)
  also have "\<dots> = bind_err (interp L (load b) x y) (\<lambda>p. bind_err (interp L (load a) x y) (\<lambda>q.
               Inr (?s'(''NDVI_2017_regridded'' \<mapsto> VArray p,
                        ''NDVI_1988_regridded'' \<mapsto> VArray q))))"
    by (rule cell17_run) (simp_all add: xy)
  finally have i: "run_cells L 17 s0 =
      bind_err (interp L (load b) x y) (\<lambda>p. bind_err (interp L (load a) x y) (\<lambda>q.
        Inr (?s'(''NDVI_2017_regridded'' \<mapsto> VArray p,
                 ''NDVI_1988_regridded'' \<mapsto> VArray q))))" .
  have fr: "\<forall>n. n \<noteq> ''NDVI_1988'' \<and> n \<noteq> ''NDVI_2017'' \<longrightarrow> ?s' n = s n" by simp
  have s': "?s' ''NDVI_1988'' = Some (VArray (load a))"
    "?s' ''NDVI_2017'' = Some (VArray (load b))" by simp_all
  have ld: "\<not> da_chunked (load a)" "\<not> da_chunked (load b)"
    "da_values (load a) = da_values a" "da_values (load b) = da_values b"
    by (simp_all add: load_def)
  note lz = cell17_lazy [OF ab(3,4) xy, of L]
  show ?thesis
    apply (rule exI [of _ a], rule exI [of _ b], rule exI [of _ x], rule exI [of _ y],
        rule exI [of _ ?s'])
    apply (intro conjI)
    apply (fact ab xy lz l s' ld fr i)+
    done
qed

theorem load_precedes_interp_witness:
  "\<exists>s a b s' s''. run_cells example_library 15 Map.empty = Inr s \<and>
      s ''NDVI_1988'' = Some (VArray a) \<and> da_chunked a \<and>
      s ''NDVI_2017'' = Some (VArray b) \<and> da_chunked b \<and>
      run_cells example_library 16 Map.empty = Inr s' \<and>
      s' ''NDVI_1988'' = Some (VArray (load a)) \<and> \<not> da_chunked (load a) \<and>
      s' ''NDVI_2017'' = Some (VArray (load b)) \<and> \<not> da_chunked (load b) \<and>
      run_cells example_library 17 Map.empty = Inr s''"
proof -
  from example_runs obtain t where t: "run_cells example_library 24 Map.empty = Inr t" ..
  from run_cells_prefix [OF t, of 15] obtain s where
    s: "run_cells example_library 15 Map.empty = Inr s" by auto
  from run_cells_prefix [OF t, of 17] obtain s'' where
    s'': "run_cells example_library 17 Map.empty = Inr s''" by auto
  from load_precedes_interp [OF s] obtain a b s' where
    c: "s ''NDVI_1988'' = Some (VArray a)" "da_chunked a"
       "s ''NDVI_2017'' = Some (VArray b)" "da_chunked b"
       "run_cells example_library 16 Map.empty = Inr s'"
       "s' ''NDVI_1988'' = Some (VArray (load a))" "\<not> da_chunked (load a)"
       "s' ''NDVI_2017'' = Some (VArray (load b))" "\<not> da_chunked (load b)"
    by (elim exE conjE) (rule that, assumption+)
  show ?thesis
    apply (rule exI [of _ s], rule exI [of _ a], rule exI [of _ b], rule exI [of _ s'],
        rule exI [of _ s''])
    apply (intro conjI)
    apply (fact s c s'')+
    done
qed

text \<open>
  C9. The division is unguarded. The index is computed without an error whatever the
  band values are. At every pixel where NIR + Red is zero, the value is not a finite
  number (\<open>nan\<close> when both bands are zero, an infinity otherwise); at every pixel where
  both band values are non-negative and their sum is positive, the value is a number in
  the closed interval from -1 to 1.
\<close>

theorem ndvi_division_unguarded:
  assumes "wf_raster landsat_5_da"
    and "sel_band landsat_5_da 4 = Inr nir5" and "sel_band landsat_5_da 3 = Inr red5"
    and "wf_raster landsat_8_da"
    and "sel_band landsat_8_da 5 = Inr nir8" and "sel_band landsat_8_da 4 = Inr red8"
  shows "\<exists>a b. NDVI_1988 landsat_5_da = Inr a \<and> NDVI_2017 landsat_8_da = Inr b \<and>
           (\<forall>i < length (rs_y landsat_5_da). \<forall>j < length (rs_x landsat_5_da).
              (fadd (da_values nir5 ! i ! j) (da_values red5 ! i ! j) = Fin 0 \<longrightarrow>
                 \<not> is_finite (da_values a ! i ! j)) \<and>
              (\<forall>p q. da_values nir5 ! i ! j = Fin p \<and> da_values red5 ! i ! j = Fin q \<and>
                     0 \<le> p \<and> 0 \<le> q \<and> 0 < p + q \<longrightarrow>
                 (\<exists>v. da_values a ! i ! j = Fin v \<and> - 1 \<le> v \<and> v \<le> 1))) \<and>
           (\<forall>i < length (rs_y landsat_8_da). \<forall>j < length (rs_x landsat_8_da).
              (fadd (da_values nir8 ! i ! j) (da_values red8 ! i ! j) = Fin 0 \<longrightarrow>
                 \<not> is_finite (da_values b ! i ! j)) \<and>
              (\<forall>p q. da_values nir8 ! i ! j = Fin p \<and> da_values red8 ! i ! j = Fin q \<and>
                     0 \<le> p \<and> 0 \<le> q \<and> 0 < p + q \<longrightarrow>
                 (\<exists>v. da_values b ! i ! j = Fin v \<and> - 1 \<le> v \<and> v \<le> 1)))"
proof -
  from NDVI_1988_pixels [OF assms(1-3)] obtain a where
    a: "NDVI_1988 landsat_5_da = Inr a" "da_y a = rs_y landsat_5_da"
       "da_x a = rs_x landsat_5_da"
       "\<forall>i < length (rs_y landsat_5_da). \<forall>j < length (rs_x landsat_5_da).
          da_values a ! i ! j =
            fdiv (fsub (da_values nir5 ! i ! j) (da_values red5 ! i ! j))
                 (fadd (da_values nir5 ! i ! j) (da_values red5 ! i ! j))"
    by blast
  from NDVI_2017_pixels [OF assms(4-6)] obtain b where
    b: "NDVI_2017 landsat_8_da = Inr b" "da_y b = rs_y landsat_8_da"
       "da_x b = rs_x landsat_8_da"
       "\<forall>i < length (rs_y landsat_8_da). \<forall>j < length (rs_x landsat_8_da).
          da_values b ! i ! j =
            fdiv (fsub (da_values nir8 ! i ! j) (da_values red8 ! i ! j))
                 (fadd (da_values nir8 ! i ! j) (da_values red8 ! i ! j))"
    by blast
  have "\<forall>i < length (rs_y landsat_5_da). \<forall>j < length (rs_x landsat_5_da).
          (fadd (da_values nir5 ! i ! j) (da_values red5 ! i ! j) = Fin 0 \<longrightarrow>
             \<not> is_finite (da_values a ! i ! j)) \<and>
          (\<forall>p q. da_values nir5 ! i ! j = Fin p \<and> da_values red5 ! i ! j = Fin q \<and>
                 0 \<le> p \<and> 0 \<le> q \<and> 0 < p + q \<longrightarrow>
             (\<exists>v. da_values a ! i ! j = Fin v \<and> - 1 \<le> v \<and> v \<le> 1))"
    using a(4) zero_sum_not_finite normalized_in_range by (metis (no_types, lifting))
  moreover have "\<forall>i < length (rs_y landsat_8_da). \<forall>j < length (rs_x landsat_8_da).
          (fadd (da_values nir8 ! i ! j) (da_values red8 ! i ! j) = Fin 0 \<longrightarrow>
             \<not> is_finite (da_values b ! i ! j)) \<and>
          (\<forall>p q. da_values nir8 ! i ! j = Fin p \<and> da_values red8 ! i ! j = Fin q \<and>
                 0 \<le> p \<and> 0 \<le> q \<and> 0 < p + q \<longrightarrow>
             (\<exists>v. da_values b ! i ! j = Fin v \<and> - 1 \<le> v \<and> v \<le> 1))"
    using b(4) zero_sum_not_finite normalized_in_range by (metis (no_types, lifting))
  ultimately show ?thesis using a(1) b(1) by blast
qed

theorem ndvi_division_unguarded_witness:
  "\<exists>a b. NDVI_1988 example_raster = Inr a \<and> NDVI_2017 example_raster = Inr b \<and>
      \<not> is_finite (da_values a ! 0 ! 1) \<and>
      (\<exists>v. da_values b ! 1 ! 1 = Fin v \<and> - 1 \<le> v \<and> v \<le> 1)"
proof -
  let ?b3 = "\<lparr>da_y = [0, 30], da_x = [0, 30], da_values = [[Fin 1, Fin 0], [Fin 2, Fin 3]],
          da_chunked = False\<rparr>"
  let ?b4 = "\<lparr>da_y = [0, 30], da_x = [0, 30], da_values = [[Fin 3, Fin 0], [Fin 2, Fin 1]],
          da_chunked = False\<rparr>"
  let ?b5 = "\<lparr>da_y = [0, 30], da_x = [0, 30], da_values = [[Fin 5, Fin 4], [Fin 2, Fin 0]],
          da_chunked = False\<rparr>"
  from ndvi_division_unguarded [OF example_raster_wf example_raster_bands(2)
      example_raster_bands(1) example_raster_wf example_raster_bands(3)
      example_raster_bands(2)]
  obtain a b where ab: "NDVI_1988 example_raster = Inr a" "NDVI_2017 example_raster = Inr b"
    and a: "\<forall>i < length (rs_y example_raster). \<forall>j < length (rs_x example_raster).
              (fadd (da_values ?b4 ! i ! j) (da_values ?b3 ! i ! j) = Fin 0 \<longrightarrow>
                 \<not> is_finite (da_values a ! i ! j)) \<and>
              (\<forall>p q. da_values ?b4 ! i ! j = Fin p \<and> da_values ?b3 ! i ! j = Fin q \<and>
                     0 \<le> p \<and> 0 \<le> q \<and> 0 < p + q \<longrightarrow>
                 (\<exists>v. da_values a ! i ! j = Fin v \<and> - 1 \<le> v \<and> v \<le> 1))"
    and b: "\<forall>i < length (rs_y example_raster). \<forall>j < length (rs_x example_raster).
              (fadd (da_values ?b5 ! i ! j) (da_values ?b4 ! i ! j) = Fin 0 \<longrightarrow>
                 \<not> is_finite (da_values b ! i ! j)) \<and>
              (\<forall>p q. da_values ?b5 ! i ! j = Fin p \<and> da_values ?b4 ! i ! j = Fin q \<and>
                     0 \<le> p \<and> 0 \<le> q \<and> 0 < p + q \<longrightarrow>
                 (\<exists>v. da_values b ! i ! j = Fin v \<and> - 1 \<le> v \<and> v \<le> 1))"
    by blast
  have len: "0 < length (rs_y example_raster)" "1 < length (rs_y example_raster)"
    "1 < length (rs_x example_raster)"
    by (simp_all add: example_raster_def)
  from a len(1,3) have "fadd (da_values ?b4 ! 0 ! 1) (da_values ?b3 ! 0 ! 1) = Fin 0 \<longrightarrow>
      \<not> is_finite (da_values a ! 0 ! 1)" by blast
  then have "\<not> is_finite (da_values a ! 0 ! 1)" by simp
  moreover from b len(2,3) have
    "da_values ?b5 ! 1 ! 1 = Fin 0 \<and> da_values ?b4 ! 1 ! 1 = Fin 1 \<and>
       (0::real) \<le> 0 \<and> (0::real) \<le> 1 \<and> (0::real) < 0 + 1 \<longrightarrow>
     (\<exists>v. da_values b ! 1 ! 1 = Fin v \<and> - 1 \<le> v \<and> v \<le> 1)" by blast
  then have "\<exists>v. da_values b ! 1 ! 1 = Fin v \<and> - 1 \<le> v \<and> v \<le> 1" by simp
  ultimately show ?thesis using ab by blast
qed

end
